theory Spec2Isabelle
  imports Main "HOL-Library.AList"
begin

section \<open>The signaling hub of vestream: the backend's WebSocket server with its room registry\<close>

text \<open>
  The hub keeps five module-level \<open>Map\<close>s (\<open>rooms\<close>, \<open>users\<close>, \<open>connections\<close>,
  \<open>activeStreams\<close>, \<open>chatMessages\<close>) and, per WebSocket connection, one closure variable
  \<open>currentUserId\<close>. Each handler is embedded as a function from hub state to hub state.
  What a handler writes with \<open>ws.send\<close> is appended to the log \<open>sent\<close>, in call order.
\<close>

subsection \<open>Shared types (\<open>packages/shared/src/index.ts\<close>)\<close>

datatype Role = Broadcaster | Viewer

record User =
  idU :: string
  username :: string
  role :: Role
  roomId :: string

record Room =
  idR :: string
  name :: string
  broadcaster :: "string option"
  viewers :: "string list"

text \<open>\<open>getRoomWithUsers\<close> returns \<open>{...room, users: roomUsers}\<close>: the room's fields and one more.\<close>

record RoomWithUsers = Room +
  usersR :: "User list"

datatype ChatType = Public | Private

record ChatMessage =
  idC :: string
  senderId :: string
  senderUsername :: string
  roomIdC :: string
  content :: string
  typeC :: ChatType
  recipientId :: "string option"
  timestampC :: string

datatype WSMessageType =
    JOIN_ROOM | LEAVE_ROOM | ROOM_JOINED | ROOM_STATE | OFFER | ANSWER | ICE_CANDIDATE
  | USER_JOINED | USER_LEFT | ERROR | STREAM_READY | VIEWER_READY | BROADCASTER_READY
  | CHAT_MESSAGE | CHAT_MESSAGE_RECEIVED

record JoinRoomPayload =
  roomIdJ :: string
  usernameJ :: string
  roleJ :: Role

record RTCSignalPayload =
  sender :: string
  receiver :: string
  roomIdS :: string
  data :: string

datatype ErrorCode = ROOM_NOT_FOUND | BROADCASTER_EXISTS | USER_EXISTS | INVALID_ROLE

record ErrorPayload =
  code :: ErrorCode
  message :: string

text \<open>The payloads the hub writes. \<open>getRoomWithUsers\<close> may return \<open>null\<close>, hence the options.\<close>

datatype Payload =
    ErrorP ErrorPayload
  | RoomJoinedP "RoomWithUsers option" User "ChatMessage list"
  | UserJoinedP User
  | UserLeftP User "RoomWithUsers option"
  | RoomStateP "RoomWithUsers option"
  | BroadcasterReadyP User
  | ViewerReadyP User
  | ChatMessageReceivedP ChatMessage
  | RTCSignalP RTCSignalPayload

record WSMessage =
  typeW :: WSMessageType
  payload :: Payload
  timestamp :: string

text \<open>
  An inbound frame, after \<open>JSON.parse\<close> and the cast the handler applies to its payload. The
  handler reads no payload of \<open>STREAM_READY\<close> and \<open>VIEWER_READY\<close>; \<open>OFFER\<close>, \<open>ANSWER\<close> and
  \<open>ICE_CANDIDATE\<close> share one \<open>case\<close>; every other tag falls through the \<open>switch\<close>, which has
  no default branch.
\<close>

datatype ClientMessage =
    JoinRoom JoinRoomPayload
  | ChatMessageIn ChatMessage
  | StreamReady
  | ViewerReady
  | Offer RTCSignalPayload
  | Answer RTCSignalPayload
  | IceCandidate RTCSignalPayload
  | Unhandled WSMessageType

subsection \<open>Hub state\<close>

type_synonym ws = nat

text \<open>
  A JavaScript \<open>Map\<close> is an association list in insertion order: \<open>set\<close> replaces the value
  of a present key in place and appends an absent one, \<open>delete\<close> removes the key.
\<close>

abbreviation Map_get :: "('k \<times> 'v) list \<Rightarrow> 'k \<Rightarrow> 'v option" where
  "Map_get m k \<equiv> map_of m k"

abbreviation Map_set :: "'k \<Rightarrow> 'v \<Rightarrow> ('k \<times> 'v) list \<Rightarrow> ('k \<times> 'v) list" where
  "Map_set k v m \<equiv> AList.update k v m"

abbreviation Map_delete :: "'k \<Rightarrow> ('k \<times> 'v) list \<Rightarrow> ('k \<times> 'v) list" where
  "Map_delete k m \<equiv> AList.delete k m"

record hub =
  rooms :: "(string \<times> Room) list"
  users :: "(string \<times> User) list"
  connections :: "(string \<times> ws) list"
  activeStreams :: "(string \<times> bool) list"
  chatMessages :: "(string \<times> ChatMessage list) list"
  currentUserId :: "ws \<Rightarrow> string option"
  sent :: "(ws \<times> WSMessage) list"

definition hub_init :: hub where
  "hub_init = \<lparr> rooms = [], users = [], connections = [], activeStreams = [],
                chatMessages = [], currentUserId = (\<lambda>_. None), sent = [] \<rparr>"

text \<open>
  What a handler takes from outside the hub: the value \<open>uuidv4()\<close> returns (each handler calls
  it at most once), the clock, and the runtime's \<open>String.prototype.toLowerCase\<close>. \<open>now k\<close> is
  what the \<open>k\<close>-th place of the handler that reads \<open>new Date().toISOString()\<close> gets; \<open>now 0\<close>
  is the \<open>timestamp\<close> read on entry. \<open>toLowerCase\<close> is a built-in with the case mapping of
  Unicode, which is no code of this repository: it is a parameter, and every theorem holds
  for every function in its place.
\<close>

record Env =
  uuid :: string
  now :: "nat \<Rightarrow> string"
  toLowerCase :: "string \<Rightarrow> string"

text \<open>JavaScript truthiness of a \<open>string | undefined\<close>: defined and not the empty string.\<close>

definition truthy :: "string option \<Rightarrow> bool" where
  "truthy x = (case x of None \<Rightarrow> False | Some v \<Rightarrow> v \<noteq> [])"

subsection \<open>Helpers\<close>

definition sendMessage :: "ws \<Rightarrow> WSMessage \<Rightarrow> hub \<Rightarrow> hub" where
  "sendMessage w m s = s\<lparr> sent := sent s @ [(w, m)] \<rparr>"

definition memberIds :: "Room \<Rightarrow> string list" where
  "memberIds room = (if truthy (broadcaster room) then [the (broadcaster room)] else []) @ viewers room"

definition broadcastToRoom :: "string \<Rightarrow> WSMessage \<Rightarrow> string option \<Rightarrow> hub \<Rightarrow> hub" where
  "broadcastToRoom rid m excludeUser s =
     (case Map_get (rooms s) rid of
        None \<Rightarrow> s
      | Some room \<Rightarrow>
          foldl (\<lambda>s' userId.
                   if truthy excludeUser \<and> Some userId = excludeUser then s'
                   else (case Map_get (connections s') userId of
                           Some userWs \<Rightarrow> sendMessage userWs m s'
                         | None \<Rightarrow> s'))
                s (memberIds room))"

definition isUsernameTaken :: "Env \<Rightarrow> hub \<Rightarrow> string \<Rightarrow> string \<Rightarrow> bool" where
  "isUsernameTaken env s rid uname =
     (case Map_get (rooms s) rid of
        None \<Rightarrow> False
      | Some room \<Rightarrow>
          (let usersInRoom = filter (\<lambda>user. roomId user = rid) (map snd (users s))
           in list_ex (\<lambda>user. toLowerCase env (username user) = toLowerCase env uname)
                      usersInRoom))"

definition notifyViewerOfBroadcaster :: "string \<Rightarrow> string \<Rightarrow> string \<Rightarrow> hub \<Rightarrow> hub" where
  "notifyViewerOfBroadcaster rid viewerId t s =
     (case Map_get (rooms s) rid of
        None \<Rightarrow> s
      | Some room \<Rightarrow>
          if \<not> truthy (broadcaster room) then s
          else (case (Map_get (users s) (the (broadcaster room)), Map_get (connections s) viewerId) of
                  (Some b, Some viewerWs) \<Rightarrow>
                    sendMessage viewerWs
                      \<lparr> typeW = BROADCASTER_READY, payload = BroadcasterReadyP b, timestamp = t \<rparr> s
                | _ \<Rightarrow> s))"

definition getRoomWithUsers :: "hub \<Rightarrow> string \<Rightarrow> RoomWithUsers option" where
  "getRoomWithUsers s rid =
     (case Map_get (rooms s) rid of
        None \<Rightarrow> None
      | Some room \<Rightarrow>
          (let bs = (if truthy (broadcaster room)
                     then (case Map_get (users s) (the (broadcaster room)) of
                             Some b \<Rightarrow> [b] | None \<Rightarrow> [])
                     else []);
               vs = concat (map (\<lambda>viewerId. case Map_get (users s) viewerId of
                                                Some v \<Rightarrow> [v] | None \<Rightarrow> [])
                                (viewers room))
           in Some \<lparr> idR = idR room, name = name room, broadcaster = broadcaster room,
                     viewers = viewers room, usersR = bs @ vs \<rparr>))"

text \<open>
  \<open>Array.prototype.slice(start)\<close> with one argument: a negative start counts from the end
  (clamped at the first element), a start beyond the end gives the empty array.
\<close>

definition slice_from :: "int \<Rightarrow> 'a list \<Rightarrow> 'a list" where
  "slice_from start xs =
     (let n = int (length xs);
          k = (if start < 0 then max (n + start) 0 else min start n)
      in drop (nat k) xs)"

definition getRoomMessages :: "hub \<Rightarrow> string \<Rightarrow> int \<Rightarrow> ChatMessage list" where
  "getRoomMessages s rid limit =
     (let messages = (case Map_get (chatMessages s) rid of Some ms \<Rightarrow> ms | None \<Rightarrow> [])
      in slice_from (- limit) messages)"

text \<open>
  \<open>GET /api/rooms/:roomId/messages\<close>. The argument is what \<open>parseInt\<close> made of the query
  parameter, \<open>None\<close> for \<open>NaN\<close>; \<open>NaN\<close> and \<open>0\<close> are falsy, so \<open>|| 50\<close> replaces both.
\<close>

definition api_room_messages :: "hub \<Rightarrow> string \<Rightarrow> int option \<Rightarrow> ChatMessage list" where
  "api_room_messages s rid parsed =
     (let limit = (case parsed of None \<Rightarrow> 50 | Some n \<Rightarrow> if n = 0 then 50 else n)
      in getRoomMessages s rid limit)"

definition api_rooms :: "hub \<Rightarrow> Room list" where
  "api_rooms s = map snd (rooms s)"

subsection \<open>The \<open>message\<close> handler, one definition per \<open>case\<close>\<close>

text \<open>The object literals of the \<open>JOIN_ROOM\<close> case: the new room, the new user, the role assignment.\<close>

definition newRoom :: "string \<Rightarrow> Room" where
  "newRoom rid = \<lparr> idR = rid, name = ''Room '' @ rid, broadcaster = None, viewers = [] \<rparr>"

definition joinedUser :: "JoinRoomPayload \<Rightarrow> Env \<Rightarrow> User" where
  "joinedUser p env =
     \<lparr> idU = uuid env, username = usernameJ p, role = roleJ p, roomId = roomIdJ p \<rparr>"

definition seatIn :: "Role \<Rightarrow> string \<Rightarrow> Room \<Rightarrow> Room" where
  "seatIn r newUserId room =
     (if r = Broadcaster then room\<lparr> broadcaster := Some newUserId \<rparr>
      else room\<lparr> viewers := viewers room @ [newUserId] \<rparr>)"

definition errorMessage :: "ErrorCode \<Rightarrow> string \<Rightarrow> string \<Rightarrow> WSMessage" where
  "errorMessage c txt t =
     \<lparr> typeW = ERROR, payload = ErrorP \<lparr> code = c, message = txt \<rparr>, timestamp = t \<rparr>"

text \<open>
  Lines 196 to 259 of the \<open>JOIN_ROOM\<close> case: mint the id, seat the identity and notify. The room
  is in the registry when control gets here (\<open>rooms.get(roomId)!\<close>); were it not, the
  assignment to its field would throw into the handler's \<open>catch\<close>, after \<open>currentUserId\<close> was set.
\<close>

definition join_seat :: "ws \<Rightarrow> JoinRoomPayload \<Rightarrow> Env \<Rightarrow> hub \<Rightarrow> hub" where
  "join_seat w p env s =
     (let rid = roomIdJ p;
          newUserId = uuid env;
          s1 = s\<lparr> currentUserId := (currentUserId s)(w := Some newUserId) \<rparr>
      in case Map_get (rooms s1) rid of
           None \<Rightarrow> s1
         | Some updatedRoom \<Rightarrow>
             (let user = joinedUser p env;
                  room' = seatIn (roleJ p) newUserId updatedRoom;
                  s2 = s1\<lparr> rooms := Map_set rid room' (rooms s1) \<rparr>;
                  s3 = s2\<lparr> users := Map_set newUserId user (users s2),
                           connections := Map_set newUserId w (connections s2) \<rparr>;
                  roomWithUsers = getRoomWithUsers s3 rid;
                  roomMessages = getRoomMessages s3 rid 50;
                  s4 = sendMessage w
                         \<lparr> typeW = ROOM_JOINED,
                           payload = RoomJoinedP roomWithUsers user roomMessages,
                           timestamp = now env 0 \<rparr> s3;
                  s5 = (if roleJ p = Viewer \<and> truthy (broadcaster room')
                           \<and> Map_get (activeStreams s4) rid = Some True
                        then notifyViewerOfBroadcaster rid newUserId (now env 1) s4
                        else s4);
                  s6 = broadcastToRoom rid
                         \<lparr> typeW = USER_JOINED, payload = UserJoinedP user, timestamp = now env 0 \<rparr>
                         (Some newUserId) s5
              in broadcastToRoom rid
                   \<lparr> typeW = ROOM_STATE, payload = RoomStateP roomWithUsers, timestamp = now env 0 \<rparr>
                   None s6))"

definition join_room :: "ws \<Rightarrow> JoinRoomPayload \<Rightarrow> Env \<Rightarrow> hub \<Rightarrow> hub" where
  "join_room w p env s =
     (case Map_get (rooms s) (roomIdJ p) of
        None \<Rightarrow>
          if roleJ p = Viewer
          then sendMessage w (errorMessage ROOM_NOT_FOUND ''Room does not exist'' (now env 0)) s
          else join_seat w p env
                 (s\<lparr> rooms := Map_set (roomIdJ p) (newRoom (roomIdJ p)) (rooms s),
                      chatMessages := Map_set (roomIdJ p) [] (chatMessages s) \<rparr>)
      | Some room \<Rightarrow>
          if isUsernameTaken env s (roomIdJ p) (usernameJ p)
          then sendMessage w
                 (errorMessage USER_EXISTS ''Username is already taken in this room'' (now env 0)) s
          else if roleJ p = Broadcaster \<and> truthy (broadcaster room)
          then sendMessage w
                 (errorMessage BROADCASTER_EXISTS ''Room already has a broadcaster'' (now env 0)) s
          else join_seat w p env s)"

text \<open>
  The \<open>newMessage\<close> literal of the \<open>CHAT_MESSAGE\<close> case and the envelope that carries it
  (written out three times in the source, each time the same).
\<close>

definition mintMessage :: "User \<Rightarrow> ChatMessage \<Rightarrow> Env \<Rightarrow> ChatMessage" where
  "mintMessage user chatMessage env =
     \<lparr> idC = uuid env, senderId = idU user, senderUsername = username user,
       roomIdC = roomId user, content = content chatMessage, typeC = typeC chatMessage,
       recipientId = recipientId chatMessage, timestampC = now env 1 \<rparr>"

definition chatReceived :: "ChatMessage \<Rightarrow> WSMessage" where
  "chatReceived newMessage =
     \<lparr> typeW = CHAT_MESSAGE_RECEIVED, payload = ChatMessageReceivedP newMessage,
       timestamp = timestampC newMessage \<rparr>"

definition chat_message :: "ws \<Rightarrow> ChatMessage \<Rightarrow> Env \<Rightarrow> hub \<Rightarrow> hub" where
  "chat_message w chatMessage env s =
     (if \<not> truthy (currentUserId s w) then s
      else case Map_get (users s) (the (currentUserId s w)) of
        None \<Rightarrow> s
      | Some user \<Rightarrow>
          (let newMessage = mintMessage user chatMessage env;
               roomMessages = (case Map_get (chatMessages s) (roomId user) of
                                 Some ms \<Rightarrow> ms | None \<Rightarrow> []);
               s1 = s\<lparr> chatMessages :=
                          Map_set (roomId user) (roomMessages @ [newMessage]) (chatMessages s) \<rparr>
           in if typeC chatMessage = Private \<and> truthy (recipientId chatMessage)
              then (let s2 = (case Map_get (connections s1) (the (recipientId chatMessage)) of
                                Some recipientWs \<Rightarrow> sendMessage recipientWs (chatReceived newMessage) s1
                              | None \<Rightarrow> s1)
                    in sendMessage w (chatReceived newMessage) s2)
              else broadcastToRoom (roomId user) (chatReceived newMessage) None s1))"

text \<open>
  In the \<open>forEach\<close> of \<open>STREAM_READY\<close> every call of \<open>notifyViewerOfBroadcaster\<close> that sends
  reads the clock again: the call for the viewer at position \<open>i\<close> gets \<open>now (i + 1)\<close>.
\<close>

definition stream_ready :: "ws \<Rightarrow> Env \<Rightarrow> hub \<Rightarrow> hub" where
  "stream_ready w env s =
     (if \<not> truthy (currentUserId s w) then s
      else case Map_get (users s) (the (currentUserId s w)) of
        None \<Rightarrow> s
      | Some user \<Rightarrow>
          if role user \<noteq> Broadcaster then s
          else (let s1 = s\<lparr> activeStreams := Map_set (roomId user) True (activeStreams s) \<rparr>
                in case Map_get (rooms s1) (roomId user) of
                     None \<Rightarrow> s1
                   | Some room \<Rightarrow>
                       foldl (\<lambda>s' (i, viewerId).
                                notifyViewerOfBroadcaster (roomId user) viewerId (now env (i + 1)) s')
                             s1 (zip [0 ..< length (viewers room)] (viewers room))))"

definition viewer_ready :: "ws \<Rightarrow> Env \<Rightarrow> hub \<Rightarrow> hub" where
  "viewer_ready w env s =
     (if \<not> truthy (currentUserId s w) then s
      else case Map_get (users s) (the (currentUserId s w)) of
        None \<Rightarrow> s
      | Some viewer \<Rightarrow>
          if role viewer \<noteq> Viewer then s
          else (case Map_get (rooms s) (roomId viewer) of
                  None \<Rightarrow> s
                | Some room \<Rightarrow>
                    if \<not> truthy (broadcaster room) then s
                    else (case Map_get (connections s) (the (broadcaster room)) of
                            None \<Rightarrow> s
                          | Some broadcasterWs \<Rightarrow>
                              sendMessage broadcasterWs
                                \<lparr> typeW = VIEWER_READY, payload = ViewerReadyP viewer,
                                  timestamp = now env 0 \<rparr> s)))"

definition signal :: "ws \<Rightarrow> WSMessageType \<Rightarrow> RTCSignalPayload \<Rightarrow> Env \<Rightarrow> hub \<Rightarrow> hub" where
  "signal w ty p env s =
     (if \<not> truthy (currentUserId s w) then s
      else case Map_get (connections s) (receiver p) of
        None \<Rightarrow> s
      | Some receiverWs \<Rightarrow>
          sendMessage receiverWs
            \<lparr> typeW = ty,
              payload = RTCSignalP \<lparr> sender = the (currentUserId s w), receiver = receiver p,
                                     roomIdS = roomIdS p, data = data p \<rparr>,
              timestamp = now env 0 \<rparr> s)"

text \<open>
  The \<open>switch\<close>. The three relayed tags share one body, which writes \<open>message.type\<close> back:
  \<open>signal\<close> takes it as its second argument.
\<close>

fun on_message :: "ws \<Rightarrow> ClientMessage \<Rightarrow> Env \<Rightarrow> hub \<Rightarrow> hub" where
  "on_message w (JoinRoom p) env s = join_room w p env s"
| "on_message w (ChatMessageIn m) env s = chat_message w m env s"
| "on_message w StreamReady env s = stream_ready w env s"
| "on_message w ViewerReady env s = viewer_ready w env s"
| "on_message w (Offer p) env s = signal w OFFER p env s"
| "on_message w (Answer p) env s = signal w ANSWER p env s"
| "on_message w (IceCandidate p) env s = signal w ICE_CANDIDATE p env s"
| "on_message w (Unhandled ty) env s = s"

subsection \<open>The \<open>close\<close> handler\<close>

definition on_close :: "ws \<Rightarrow> Env \<Rightarrow> hub \<Rightarrow> hub" where
  "on_close w env s =
     (if \<not> truthy (currentUserId s w) then s
      else
        (let cur = the (currentUserId s w);
             s4 = (case Map_get (users s) cur of
                None \<Rightarrow> s
              | Some user \<Rightarrow>
                  (let s1 = (if role user = Broadcaster
                             then s\<lparr> activeStreams := Map_delete (roomId user) (activeStreams s) \<rparr>
                             else s)
                   in case Map_get (rooms s1) (roomId user) of
                        None \<Rightarrow> s1
                      | Some room \<Rightarrow>
                          (let room' = (if role user = Broadcaster
                                        then room\<lparr> broadcaster := None \<rparr>
                                        else room\<lparr> viewers := filter (\<lambda>i. i \<noteq> cur) (viewers room) \<rparr>);
                               s2 = s1\<lparr> rooms := Map_set (roomId user) room' (rooms s1) \<rparr>;
                               roomWithUsers = getRoomWithUsers s2 (roomId user);
                               s3 = broadcastToRoom (roomId user)
                                      \<lparr> typeW = USER_LEFT, payload = UserLeftP user roomWithUsers,
                                        timestamp = now env 0 \<rparr>
                                      (Some cur) s2
                           in if \<not> truthy (broadcaster room') \<and> viewers room' = []
                              then s3\<lparr> rooms := Map_delete (roomId user) (rooms s3),
                                       chatMessages := Map_delete (roomId user) (chatMessages s3) \<rparr>
                              else broadcastToRoom (roomId user)
                                     \<lparr> typeW = ROOM_STATE, payload = RoomStateP roomWithUsers,
                                       timestamp = now env 1 \<rparr>
                                     None s3)))
         in s4\<lparr> users := Map_delete cur (users s4),
                connections := Map_delete cur (connections s4) \<rparr>))"

subsection \<open>Runs of the hub\<close>

text \<open>
  \<open>uuidv4()\<close> returns a non-empty string that names no identity of the hub. The transport
  delivers no event of a connection after its \<open>close\<close> event: the first argument of
  \<open>reachable\<close> is the set of connections that have closed.
\<close>

definition fresh :: "Env \<Rightarrow> hub \<Rightarrow> bool" where
  "fresh env s = (uuid env \<noteq> [] \<and> uuid env \<notin> fst ` set (users s))"

inductive reachable :: "ws set \<Rightarrow> hub \<Rightarrow> bool" where
  start: "reachable {} hub_init"
| message: "reachable C s \<Longrightarrow> w \<notin> C \<Longrightarrow> fresh env s \<Longrightarrow> reachable C (on_message w m env s)"
| close: "reachable C s \<Longrightarrow> w \<notin> C \<Longrightarrow> reachable (insert w C) (on_close w env s)"

subsection \<open>What a fan-out writes, and states that differ only in what was sent\<close>

definition fanout :: "hub \<Rightarrow> string \<Rightarrow> WSMessage \<Rightarrow> string option \<Rightarrow> (ws \<times> WSMessage) list" where
  "fanout s rid m excludeUser =
     (case Map_get (rooms s) rid of
        None \<Rightarrow> []
      | Some room \<Rightarrow>
          concat (map (\<lambda>userId. if truthy excludeUser \<and> Some userId = excludeUser then []
                                 else (case Map_get (connections s) userId of
                                         Some userWs \<Rightarrow> [(userWs, m)] | None \<Rightarrow> []))
                      (memberIds room)))"

definition sends_only :: "hub \<Rightarrow> hub \<Rightarrow> bool" where
  "sends_only s s' =
     (rooms s' = rooms s \<and> users s' = users s \<and> connections s' = connections s \<and>
      activeStreams s' = activeStreams s \<and> chatMessages s' = chatMessages s \<and>
      currentUserId s' = currentUserId s \<and> (\<exists>l. sent s' = sent s @ l))"

text \<open>The tags of what was sent, with the connection each went to.\<close>

definition sentTags :: "hub \<Rightarrow> (ws \<times> WSMessageType) list" where
  "sentTags s = map (\<lambda>e. (fst e, typeW (snd e))) (sent s)"

subsection \<open>The registries after an accepted join and after a departure\<close>

definition join_accepted :: "Env \<Rightarrow> hub \<Rightarrow> JoinRoomPayload \<Rightarrow> bool" where
  "join_accepted env s p =
     (case Map_get (rooms s) (roomIdJ p) of
        None \<Rightarrow> roleJ p = Broadcaster
      | Some room \<Rightarrow> \<not> isUsernameTaken env s (roomIdJ p) (usernameJ p)
                     \<and> \<not> (roleJ p = Broadcaster \<and> truthy (broadcaster room)))"

definition seated :: "ws \<Rightarrow> JoinRoomPayload \<Rightarrow> Env \<Rightarrow> hub \<Rightarrow> hub" where
  "seated w p env s =
     (let base = (case Map_get (rooms s) (roomIdJ p) of None \<Rightarrow> newRoom (roomIdJ p) | Some r \<Rightarrow> r)
      in s\<lparr> currentUserId := (currentUserId s)(w := Some (uuid env)),
            rooms := Map_set (roomIdJ p) (seatIn (roleJ p) (uuid env) base) (rooms s),
            users := Map_set (uuid env) (joinedUser p env) (users s),
            connections := Map_set (uuid env) w (connections s),
            chatMessages := (if Map_get (rooms s) (roomIdJ p) = None
                             then Map_set (roomIdJ p) [] (chatMessages s) else chatMessages s) \<rparr>)"

definition leaveRoom :: "User \<Rightarrow> Room \<Rightarrow> Room" where
  "leaveRoom user room = (if role user = Broadcaster then room\<lparr> broadcaster := None \<rparr>
       else room\<lparr> viewers := filter (\<lambda>i. i \<noteq> idU user) (viewers room) \<rparr>)"

definition parted :: "User \<Rightarrow> Room \<Rightarrow> hub \<Rightarrow> hub" where
  "parted user room s =
     (let room' = leaveRoom user room;
          gone = (\<not> truthy (broadcaster room') \<and> viewers room' = [])
      in s\<lparr> activeStreams := (if role user = Broadcaster
                               then Map_delete (roomId user) (activeStreams s)
                               else activeStreams s),
            rooms := (if gone then Map_delete (roomId user) (rooms s)
                      else Map_set (roomId user) room' (rooms s)),
            chatMessages := (if gone then Map_delete (roomId user) (chatMessages s)
                             else chatMessages s),
            users := Map_delete (idU user) (users s),
            connections := Map_delete (idU user) (connections s) \<rparr>)"

subsection \<open>The invariant of the registries\<close>

text \<open>
  Every identity is seated in its room, in the place its role names; every seat of a room is
  an identity of that room; a room in the registry has a member; a stream flag and a chat log
  belong to a room of the registry; the identity of an open connection is registered to it.
\<close>

definition users_ok :: "hub \<Rightarrow> bool" where
  "users_ok s = (\<forall>uid u. Map_get (users s) uid = Some u \<longrightarrow>
       uid \<noteq> [] \<and> idU u = uid \<and> Map_get (connections s) uid \<noteq> None \<and>
       (\<exists>room. Map_get (rooms s) (roomId u) = Some room \<and>
          (if role u = Broadcaster then broadcaster room = Some uid
           else uid \<in> set (viewers room))))"

definition rooms_ok :: "hub \<Rightarrow> bool" where
  "rooms_ok s = (\<forall>rid room. Map_get (rooms s) rid = Some room \<longrightarrow>
       idR room = rid \<and> distinct (viewers room) \<and>
       (broadcaster room \<noteq> None \<or> viewers room \<noteq> []) \<and>
       (\<forall>b. broadcaster room = Some b \<longrightarrow>
          (\<exists>u. Map_get (users s) b = Some u \<and> role u = Broadcaster \<and> roomId u = rid)) \<and>
       (\<forall>v \<in> set (viewers room).
          \<exists>u. Map_get (users s) v = Some u \<and> role u = Viewer \<and> roomId u = rid))"

definition streams_ok :: "hub \<Rightarrow> bool" where
  "streams_ok s = (\<forall>rid. Map_get (activeStreams s) rid = Some True \<longrightarrow>
       (\<exists>room. Map_get (rooms s) rid = Some room \<and> broadcaster room \<noteq> None))"

definition chats_ok :: "hub \<Rightarrow> bool" where
  "chats_ok s = (\<forall>rid. Map_get (chatMessages s) rid \<noteq> None \<longrightarrow> Map_get (rooms s) rid \<noteq> None)"

definition sessions_ok :: "ws set \<Rightarrow> hub \<Rightarrow> bool" where
  "sessions_ok C s = (\<forall>w uid. w \<notin> C \<and> currentUserId s w = Some uid \<longrightarrow>
       Map_get (users s) uid \<noteq> None \<and> Map_get (connections s) uid = Some w)"

definition connections_ok :: "hub \<Rightarrow> bool" where
  "connections_ok s = (\<forall>uid. Map_get (connections s) uid \<noteq> None \<longrightarrow> Map_get (users s) uid \<noteq> None)"

definition hub_inv :: "ws set \<Rightarrow> hub \<Rightarrow> bool" where
  "hub_inv C s = (users_ok s \<and> rooms_ok s \<and> streams_ok s \<and> chats_ok s \<and> sessions_ok C s
                   \<and> connections_ok s)"

subsection \<open>Runs in which no connection is seated twice\<close>

text \<open>
  \<open>reachable_once\<close> leaves out the runs in which a connection that already has a
  \<open>currentUserId\<close> sends a \<open>JOIN_ROOM\<close> that is accepted. \<open>owner_ok\<close>: the connection registry
  maps an id to the connection whose \<open>currentUserId\<close> it is.
\<close>

inductive reachable_once :: "ws set \<Rightarrow> hub \<Rightarrow> bool" where
  start: "reachable_once {} hub_init"
| message: "reachable_once C s \<Longrightarrow> w \<notin> C \<Longrightarrow> fresh env s \<Longrightarrow>
     (\<forall>p. m = JoinRoom p \<and> join_accepted env s p \<longrightarrow> currentUserId s w = None) \<Longrightarrow>
     reachable_once C (on_message w m env s)"
| close: "reachable_once C s \<Longrightarrow> w \<notin> C \<Longrightarrow> reachable_once (insert w C) (on_close w env s)"

definition owner_ok :: "hub \<Rightarrow> bool" where
  "owner_ok s = (\<forall>uid w. Map_get (connections s) uid = Some w \<longrightarrow> currentUserId s w = Some uid)"

subsection \<open>Runs of the hub used to instantiate the theorems\<close>

text \<open>
  Alice opens room \<open>r\<close> from connection 1 (\<open>hubA\<close>); then Bob joins it as viewer from
  connection 2 (\<open>hubAB\<close>), or opens room \<open>q\<close> (\<open>hubAQ\<close>), or connection 1 itself sends a second
  \<open>JOIN_ROOM\<close> (\<open>hubRejoin\<close>). From \<open>hubAB\<close>: Alice announces her stream (\<open>hubLive\<close>); or her
  connection closes (\<open>hubLeft\<close>) and then Bob's (\<open>hubEmpty\<close>). From \<open>hubA\<close>: Alice announces her
  stream (\<open>hubALive\<close>) and connection 1 then sends a second \<open>JOIN_ROOM\<close>, for room \<open>q\<close>
  (\<open>hubGhost\<close>).
\<close>

text \<open>
  The runs take for \<open>toLowerCase\<close> the function that moves the letters \<open>A\<close>..\<open>Z\<close> to \<open>a\<close>..\<open>z\<close>
  and keeps every other character: on the names of these runs, which are ASCII, it is what
  the runtime's function computes.
\<close>

definition lowerChar :: "char \<Rightarrow> char" where
  "lowerChar c = (let n = (of_char c :: nat) in if 65 \<le> n \<and> n \<le> 90 then char_of (n + 32) else c)"

definition lowerAscii :: "string \<Rightarrow> string" where
  "lowerAscii str = map lowerChar str"

definition clock0 :: "nat \<Rightarrow> string" where
  "clock0 k = (if k = 0 then ''T0'' else ''T1'')"

definition envU1 :: Env where
  "envU1 = \<lparr> uuid = ''u1'', now = clock0, toLowerCase = lowerAscii \<rparr>"

definition envU2 :: Env where
  "envU2 = \<lparr> uuid = ''u2'', now = clock0, toLowerCase = lowerAscii \<rparr>"

definition envU3 :: Env where
  "envU3 = \<lparr> uuid = ''u3'', now = clock0, toLowerCase = lowerAscii \<rparr>"

definition joinAlice :: JoinRoomPayload where
  "joinAlice = \<lparr> roomIdJ = ''r'', usernameJ = ''Alice'', roleJ = Broadcaster \<rparr>"

definition joinBob :: JoinRoomPayload where
  "joinBob = \<lparr> roomIdJ = ''r'', usernameJ = ''Bob'', roleJ = Viewer \<rparr>"

definition hubA :: hub where "hubA = on_message 1 (JoinRoom joinAlice) envU1 hub_init"

definition hubAB :: hub where "hubAB = on_message 2 (JoinRoom joinBob) envU2 hubA"

definition joinAliceQ :: JoinRoomPayload where
  "joinAliceQ = \<lparr> roomIdJ = ''q'', usernameJ = ''Alice'', roleJ = Broadcaster \<rparr>"

definition joinBobQ :: JoinRoomPayload where
  "joinBobQ = \<lparr> roomIdJ = ''q'', usernameJ = ''Bob'', roleJ = Broadcaster \<rparr>"

definition hubAQ :: hub where "hubAQ = on_message 2 (JoinRoom joinBobQ) envU2 hubA"

definition hubRejoin :: hub where "hubRejoin = on_message 1 (JoinRoom joinAliceQ) envU2 hubA"

definition hubLive :: hub where "hubLive = on_message 1 StreamReady envU3 hubAB"

definition hubALive :: hub where "hubALive = on_message 1 StreamReady envU3 hubA"

definition hubGhost :: hub where "hubGhost = on_message 1 (JoinRoom joinAliceQ) envU2 hubALive"

definition hubLeft :: hub where "hubLeft = on_close 1 envU3 hubAB"

definition hubEmpty :: hub where "hubEmpty = on_close 2 envU3 hubLeft"

definition chatTo :: "ChatType \<Rightarrow> string option \<Rightarrow> ChatMessage" where
  "chatTo k rcp = \<lparr> idC = [], senderId = [], senderUsername = [], roomIdC = ''r'',
                    content = ''hi'', typeC = k, recipientId = rcp, timestampC = [] \<rparr>"

section \<open>Proofs\<close>

subsection \<open>Sending changes nothing but the log\<close>

lemma sends_only_refl: "sends_only s s"
  by (simp add: sends_only_def)

lemma sends_only_trans: "sends_only s s' \<Longrightarrow> sends_only s' s'' \<Longrightarrow> sends_only s s''"
  unfolding sends_only_def by auto

lemma sends_only_sendMessage: "sends_only s (sendMessage w m s)"
  by (simp add: sends_only_def sendMessage_def)

lemma sends_only_fields:
  assumes "sends_only s s'"
  shows "rooms s' = rooms s" "users s' = users s" "connections s' = connections s"
    "activeStreams s' = activeStreams s" "chatMessages s' = chatMessages s"
    "currentUserId s' = currentUserId s"
  using assms unfolding sends_only_def by auto

lemma sends_only_cong:
  assumes "sends_only s s'" "rooms t = rooms s" "users t = users s"
    "connections t = connections s" "activeStreams t = activeStreams s"
    "chatMessages t = chatMessages s" "currentUserId t = currentUserId s" "sent t = sent s"
  shows "sends_only t s'"
  using assms unfolding sends_only_def by simp

lemma sendMessage_fields [simp]:
  "rooms (sendMessage w m s) = rooms s" "users (sendMessage w m s) = users s"
  "connections (sendMessage w m s) = connections s"
  "activeStreams (sendMessage w m s) = activeStreams s"
  "chatMessages (sendMessage w m s) = chatMessages s"
  "currentUserId (sendMessage w m s) = currentUserId s"
  "sent (sendMessage w m s) = sent s @ [(w, m)]"
  by (simp_all add: sendMessage_def)

lemma sends_only_foldl:
  assumes "\<And>t x. sends_only t (f t x)"
  shows "sends_only s (foldl f s xs)"
proof (induction xs arbitrary: s)
  case Nil
  show ?case by (simp add: sends_only_refl)
next
  case (Cons x xs)
  have "sends_only s (f s x)" by (rule assms)
  moreover have "sends_only (f s x) (foldl f (f s x) xs)" by (rule Cons.IH)
  ultimately show ?case by (simp add: sends_only_trans)
qed

lemma foldl_fanout:
  "foldl (\<lambda>s' userId.
            if P userId then s'
            else (case Map_get (connections s') userId of
                    Some userWs \<Rightarrow> sendMessage userWs m s'
                  | None \<Rightarrow> s')) s xs
   = s\<lparr> sent := sent s @ concat (map (\<lambda>userId. if P userId then []
                                 else (case Map_get (connections s) userId of
                                         Some userWs \<Rightarrow> [(userWs, m)] | None \<Rightarrow> [])) xs) \<rparr>"
proof (induction xs arbitrary: s)
  case Nil
  show ?case by simp
next
  case (Cons x xs)
  show ?case
    by (simp add: Cons.IH sendMessage_def split: option.split cong: if_cong)
qed

lemma broadcastToRoom_eq:
  "broadcastToRoom rid m ex s = s\<lparr> sent := sent s @ fanout s rid m ex \<rparr>"
  unfolding broadcastToRoom_def fanout_def
  by (simp add: foldl_fanout split: option.split)

lemma sends_only_broadcastToRoom: "sends_only s (broadcastToRoom rid m ex s)"
  unfolding broadcastToRoom_eq by (simp add: sends_only_def)

lemma sends_only_notify: "sends_only s (notifyViewerOfBroadcaster rid v t s)"
  unfolding notifyViewerOfBroadcaster_def
  by (auto simp: sends_only_refl sends_only_sendMessage split: option.split)

lemma hub_inv_sends_only: "sends_only s s' \<Longrightarrow> hub_inv C s \<Longrightarrow> hub_inv C s'"
  unfolding hub_inv_def users_ok_def rooms_ok_def streams_ok_def chats_ok_def sessions_ok_def
    connections_ok_def
  by (simp add: sends_only_fields)

lemma join_seat_effect:
  assumes "Map_get (rooms s) (roomIdJ p) = Some room"
  shows "sends_only
           (s\<lparr> currentUserId := (currentUserId s)(w := Some (uuid env)),
               rooms := Map_set (roomIdJ p) (seatIn (roleJ p) (uuid env) room) (rooms s),
               users := Map_set (uuid env) (joinedUser p env) (users s),
               connections := Map_set (uuid env) w (connections s) \<rparr>)
           (join_seat w p env s)"
proof -
  let ?s3 = "s\<lparr> currentUserId := (currentUserId s)(w := Some (uuid env)),
               rooms := Map_set (roomIdJ p) (seatIn (roleJ p) (uuid env) room) (rooms s),
               users := Map_set (uuid env) (joinedUser p env) (users s),
               connections := Map_set (uuid env) w (connections s) \<rparr>"
  have "\<exists>m1 t m2 m3 ex. join_seat w p env s =
          broadcastToRoom (roomIdJ p) m3 None
            (broadcastToRoom (roomIdJ p) m2 ex
               (if roleJ p = Viewer \<and> truthy (broadcaster (seatIn (roleJ p) (uuid env) room))
                     \<and> Map_get (activeStreams s) (roomIdJ p) = Some True
                then notifyViewerOfBroadcaster (roomIdJ p) (uuid env) t (sendMessage w m1 ?s3)
                else sendMessage w m1 ?s3))"
    using assms unfolding join_seat_def seatIn_def joinedUser_def
    by (simp add: Let_def) blast
  then obtain m1 t m2 m3 ex where eq: "join_seat w p env s =
          broadcastToRoom (roomIdJ p) m3 None
            (broadcastToRoom (roomIdJ p) m2 ex
               (if roleJ p = Viewer \<and> truthy (broadcaster (seatIn (roleJ p) (uuid env) room))
                     \<and> Map_get (activeStreams s) (roomIdJ p) = Some True
                then notifyViewerOfBroadcaster (roomIdJ p) (uuid env) t (sendMessage w m1 ?s3)
                else sendMessage w m1 ?s3))" by blast
  have a: "sends_only ?s3 (sendMessage w m1 ?s3)" by (rule sends_only_sendMessage)
  have b: "sends_only ?s3 (if roleJ p = Viewer \<and> truthy (broadcaster (seatIn (roleJ p) (uuid env) room))
                     \<and> Map_get (activeStreams s) (roomIdJ p) = Some True
                then notifyViewerOfBroadcaster (roomIdJ p) (uuid env) t (sendMessage w m1 ?s3)
                else sendMessage w m1 ?s3)"
    using a sends_only_notify sends_only_trans by presburger
  show ?thesis
    unfolding eq
    by (rule sends_only_trans [OF sends_only_trans [OF b sends_only_broadcastToRoom]
          sends_only_broadcastToRoom])
qed

lemma not_truthy_broadcaster:
  assumes "users_ok s" "rooms_ok s" "Map_get (rooms s) rid = Some room"
  shows "truthy (broadcaster room) \<longleftrightarrow> broadcaster room \<noteq> None"
proof (cases "broadcaster room")
  case None
  then show ?thesis by (simp add: truthy_def)
next
  case (Some b)
  with assms(2,3) obtain u where "Map_get (users s) b = Some u"
    unfolding rooms_ok_def by blast
  with assms(1) have "b \<noteq> []" unfolding users_ok_def by blast
  with Some show ?thesis by (simp add: truthy_def)
qed

lemma fresh_None: "fresh env s \<Longrightarrow> Map_get (users s) (uuid env) = None"
  by (simp add: fresh_def map_of_eq_None_iff)

lemma seated_users_ok:
  assumes "hub_inv C s" "fresh env s" "join_accepted env s p"
  shows "users_ok (seated w p env s)"
proof -
  have uo: "users_ok s" and ro: "rooms_ok s" using assms(1) by (simp_all add: hub_inv_def)
  have fr: "Map_get (users s) (uuid env) = None" "uuid env \<noteq> []"
    using assms(2) by (simp_all add: fresh_None) (simp add: fresh_def)
  show ?thesis
    unfolding users_ok_def
  proof (intro allI impI)
    fix uid u
    assume lk: "Map_get (users (seated w p env s)) uid = Some u"
    show "uid \<noteq> [] \<and> idU u = uid \<and> Map_get (connections (seated w p env s)) uid \<noteq> None \<and>
       (\<exists>room. Map_get (rooms (seated w p env s)) (roomId u) = Some room \<and>
          (if role u = Broadcaster then broadcaster room = Some uid
           else uid \<in> set (viewers room)))"
    proof (cases "uid = uuid env")
      case True
      with lk have "u = joinedUser p env"
        by (simp add: seated_def Let_def update_conv')
      then show ?thesis using True fr
        by (simp add: seated_def Let_def update_conv' joinedUser_def seatIn_def)
    next
      case False
      with lk have old: "Map_get (users s) uid = Some u"
        by (simp add: seated_def Let_def update_conv')
      with uo obtain room where r: "uid \<noteq> []" "idU u = uid" "Map_get (connections s) uid \<noteq> None"
        "Map_get (rooms s) (roomId u) = Some room"
        "if role u = Broadcaster then broadcaster room = Some uid else uid \<in> set (viewers room)"
        unfolding users_ok_def by blast
      show ?thesis
      proof (cases "roomId u = roomIdJ p")
        case rf: False
        then show ?thesis using r False
          by (simp add: seated_def Let_def update_conv')
      next
        case rt: True
        have nb: "roleJ p = Broadcaster \<Longrightarrow> broadcaster room = None"
          using assms(3) r(4) rt not_truthy_broadcaster [OF uo ro r(4)]
          by (auto simp: join_accepted_def)
        show ?thesis using r False rt nb
          by (auto simp: seated_def Let_def update_conv' seatIn_def)
      qed
    qed
  qed
qed

lemma seated_rooms_ok:
  assumes "hub_inv C s" "fresh env s" "join_accepted env s p"
  shows "rooms_ok (seated w p env s)"
proof -
  have uo: "users_ok s" and ro: "rooms_ok s" using assms(1) by (simp_all add: hub_inv_def)
  have fr: "Map_get (users s) (uuid env) = None"
    using assms(2) by (simp add: fresh_None)
  define base where "base = (case Map_get (rooms s) (roomIdJ p) of None \<Rightarrow> newRoom (roomIdJ p) | Some r \<Rightarrow> r)"
  have base_id: "idR base = roomIdJ p" and base_dist: "distinct (viewers base)"
    and base_b: "\<And>b. broadcaster base = Some b \<Longrightarrow>
          \<exists>u. Map_get (users s) b = Some u \<and> role u = Broadcaster \<and> roomId u = roomIdJ p"
    and base_v: "\<And>v. v \<in> set (viewers base) \<Longrightarrow>
          \<exists>u. Map_get (users s) v = Some u \<and> role u = Viewer \<and> roomId u = roomIdJ p"
    using ro unfolding base_def rooms_ok_def newRoom_def
    by (auto split: option.splits)
  have notin: "uuid env \<notin> set (viewers base)" using base_v fr by fastforce
  have base_nb: "roleJ p = Viewer \<Longrightarrow> broadcaster base \<noteq> None \<or> viewers base \<noteq> []"
    using ro assms(3) unfolding base_def rooms_ok_def join_accepted_def
    by (auto split: option.splits)
  show ?thesis
    unfolding rooms_ok_def
  proof (intro allI impI)
    fix rid room
    assume lk: "Map_get (rooms (seated w p env s)) rid = Some room"
    show "idR room = rid \<and> distinct (viewers room) \<and>
       (broadcaster room \<noteq> None \<or> viewers room \<noteq> []) \<and>
       (\<forall>b. broadcaster room = Some b \<longrightarrow>
          (\<exists>u. Map_get (users (seated w p env s)) b = Some u \<and> role u = Broadcaster \<and> roomId u = rid)) \<and>
       (\<forall>v \<in> set (viewers room).
          \<exists>u. Map_get (users (seated w p env s)) v = Some u \<and> role u = Viewer \<and> roomId u = rid)"
    proof (cases "rid = roomIdJ p")
      case True
      with lk have rm: "room = seatIn (roleJ p) (uuid env) base"
        by (simp add: seated_def Let_def update_conv' base_def)
      show ?thesis
      proof (cases "roleJ p")
        case Broadcaster
        then show ?thesis using rm True base_id base_dist base_v fr notin
          by (auto simp: seated_def Let_def update_conv' seatIn_def joinedUser_def)
      next
        case Viewer
        then show ?thesis using rm True base_id base_dist base_v base_b fr notin
          by (auto simp: seated_def Let_def update_conv' seatIn_def joinedUser_def)
      qed
    next
      case False
      with lk have old: "Map_get (rooms s) rid = Some room"
        by (simp add: seated_def Let_def update_conv')
      with ro have r: "idR room = rid" "distinct (viewers room)"
        "broadcaster room \<noteq> None \<or> viewers room \<noteq> []"
        "\<And>b. broadcaster room = Some b \<Longrightarrow>
          (\<exists>u. Map_get (users s) b = Some u \<and> role u = Broadcaster \<and> roomId u = rid)"
        "\<And>v. v \<in> set (viewers room) \<Longrightarrow>
          \<exists>u. Map_get (users s) v = Some u \<and> role u = Viewer \<and> roomId u = rid"
        unfolding rooms_ok_def by blast+
      have u_upd: "\<And>x u. Map_get (users s) x = Some u \<Longrightarrow>
          Map_get (users (seated w p env s)) x = Some u"
        using fr by (auto simp: seated_def Let_def update_conv')
      show ?thesis using r u_upd by blast
    qed
  qed
qed

lemma seated_streams_ok:
  assumes "hub_inv C s"
  shows "streams_ok (seated w p env s)"
proof -
  have so: "streams_ok s" using assms(1) by (simp add: hub_inv_def)
  show ?thesis
    unfolding streams_ok_def
  proof (intro allI impI)
    fix rid
    assume "Map_get (activeStreams (seated w p env s)) rid = Some True"
    then have "Map_get (activeStreams s) rid = Some True" by (simp add: seated_def Let_def)
    with so obtain room where "Map_get (rooms s) rid = Some room" "broadcaster room \<noteq> None"
      unfolding streams_ok_def by blast
    then show "\<exists>room. Map_get (rooms (seated w p env s)) rid = Some room \<and> broadcaster room \<noteq> None"
      by (auto simp: seated_def Let_def update_conv' seatIn_def)
  qed
qed

lemma seated_chats_ok:
  assumes "hub_inv C s"
  shows "chats_ok (seated w p env s)"
  using assms unfolding hub_inv_def chats_ok_def
  by (auto simp: seated_def Let_def update_conv' split: if_splits)

lemma seated_sessions_ok:
  assumes "hub_inv C s" "fresh env s"
  shows "sessions_ok C (seated w p env s)"
proof -
  have so: "sessions_ok C s" using assms(1) by (simp add: hub_inv_def)
  have fr: "Map_get (users s) (uuid env) = None"
    using assms(2) by (simp add: fresh_None)
  show ?thesis
    unfolding sessions_ok_def
  proof (intro allI impI)
    fix w' uid
    assume a: "w' \<notin> C \<and> currentUserId (seated w p env s) w' = Some uid"
    show "Map_get (users (seated w p env s)) uid \<noteq> None \<and>
          Map_get (connections (seated w p env s)) uid = Some w'"
    proof (cases "w' = w")
      case True
      with a show ?thesis by (simp add: seated_def Let_def update_conv')
    next
      case False
      with a have "currentUserId s w' = Some uid" by (simp add: seated_def Let_def)
      with so a have old: "Map_get (users s) uid \<noteq> None" "Map_get (connections s) uid = Some w'"
        unfolding sessions_ok_def by blast+
      with fr have "uid \<noteq> uuid env" by auto
      with old show ?thesis by (simp add: seated_def Let_def update_conv')
    qed
  qed
qed

lemma seated_connections_ok:
  assumes "hub_inv C s"
  shows "connections_ok (seated w p env s)"
  using assms unfolding hub_inv_def connections_ok_def
  by (auto simp: seated_def Let_def update_conv' split: if_splits)

lemma seated_inv:
  assumes "hub_inv C s" "fresh env s" "join_accepted env s p"
  shows "hub_inv C (seated w p env s)"
  unfolding hub_inv_def
  using seated_users_ok [OF assms] seated_rooms_ok [OF assms] seated_streams_ok [OF assms(1)]
    seated_chats_ok [OF assms(1)] seated_sessions_ok [OF assms(1,2)]
    seated_connections_ok [OF assms(1)]
  by blast

lemma join_room_accepted:
  assumes "join_accepted env s p"
  shows "sends_only (seated w p env s) (join_room w p env s)"
proof (cases "Map_get (rooms s) (roomIdJ p)")
  case None
  let ?s0 = "s\<lparr> rooms := Map_set (roomIdJ p) (newRoom (roomIdJ p)) (rooms s),
                  chatMessages := Map_set (roomIdJ p) [] (chatMessages s) \<rparr>"
  have jr: "join_room w p env s = join_seat w p env ?s0"
    using None assms by (simp add: join_room_def join_accepted_def newRoom_def)
  have "Map_get (rooms ?s0) (roomIdJ p) = Some (newRoom (roomIdJ p))"
    by (simp add: update_conv')
  note e = join_seat_effect [OF this, where w = w and env = env]
  show ?thesis unfolding jr
    by (rule sends_only_cong [OF e]) (simp_all add: seated_def Let_def None)
next
  case (Some room)
  have jr: "join_room w p env s = join_seat w p env s"
    using Some assms by (auto simp: join_room_def join_accepted_def)
  note e = join_seat_effect [OF Some, where w = w and env = env]
  show ?thesis unfolding jr
    by (rule sends_only_cong [OF e]) (simp_all add: seated_def Let_def Some)
qed

lemma join_room_rejected:
  assumes "\<not> join_accepted env s p"
  shows "sends_only s (join_room w p env s)"
  using assms unfolding join_room_def join_accepted_def
  by (cases "roleJ p") (auto simp: sends_only_sendMessage split: option.splits)

lemma join_room_inv:
  assumes "hub_inv C s" "fresh env s"
  shows "hub_inv C (join_room w p env s)"
proof (cases "join_accepted env s p")
  case True
  from hub_inv_sends_only [OF join_room_accepted [OF True] seated_inv [OF assms True]]
  show ?thesis .
next
  case False
  from hub_inv_sends_only [OF join_room_rejected [OF False] assms(1)]
  show ?thesis .
qed

lemma on_close_idle: "\<not> truthy (currentUserId s w) \<Longrightarrow> on_close w env s = s"
  by (simp add: on_close_def)

lemma on_close_effect:
  assumes "currentUserId s w = Some uid" "uid \<noteq> []" "Map_get (users s) uid = Some user"
    "idU user = uid" "Map_get (rooms s) (roomId user) = Some room"
  shows "sends_only (parted user room s) (on_close w env s)"
  using assms unfolding on_close_def sends_only_def parted_def leaveRoom_def
  by (simp add: Let_def broadcastToRoom_eq truthy_def update_conv' delete_update_same)

lemma parted_users_ok:
  assumes inv: "hub_inv C s" and u: "Map_get (users s) uid = Some user"
    and r: "Map_get (rooms s) (roomId user) = Some room"
  shows "users_ok (parted user room s)"
proof -
  have uo: "users_ok s" and ro: "rooms_ok s" using inv by (simp_all add: hub_inv_def)
  from uo u r have me: "uid \<noteq> []" "idU user = uid"
    "if role user = Broadcaster then broadcaster room = Some uid else uid \<in> set (viewers room)"
    unfolding users_ok_def by fastforce+
  show ?thesis
    unfolding users_ok_def
  proof (intro allI impI)
    fix y u'
    assume lk: "Map_get (users (parted user room s)) y = Some u'"
    then have ne: "y \<noteq> uid" and old: "Map_get (users s) y = Some u'"
      using me(2) by (auto simp: parted_def Let_def delete_conv' split: if_splits)
    from uo old obtain room2 where o: "y \<noteq> []" "idU u' = y" "Map_get (connections s) y \<noteq> None"
        "Map_get (rooms s) (roomId u') = Some room2"
        "if role u' = Broadcaster then broadcaster room2 = Some y else y \<in> set (viewers room2)"
      unfolding users_ok_def by blast
    have conn: "Map_get (connections (parted user room s)) y \<noteq> None"
      using o(3) ne me(2) by (simp add: parted_def Let_def delete_conv')
    have "\<exists>room3. Map_get (rooms (parted user room s)) (roomId u') = Some room3 \<and>
          (if role u' = Broadcaster then broadcaster room3 = Some y else y \<in> set (viewers room3))"
    proof (cases "roomId u' = roomId user")
      case False
      then show ?thesis using o(4,5)
        by (auto simp: parted_def Let_def delete_conv' update_conv')
    next
      case True
      with o(4) r have same: "room2 = room" by simp
      show ?thesis
      proof (cases "role u'")
        case Broadcaster
        with o(5) same have b: "broadcaster room = Some y" by simp
        with me(3) ne have uv: "role user = Viewer" by (cases "role user") auto
        then show ?thesis using b Broadcaster True o(1)
          by (auto simp: parted_def Let_def delete_conv' update_conv' leaveRoom_def truthy_def)
      next
        case Viewer
        with o(5) same have v: "y \<in> set (viewers room)" by simp
        have "y \<in> set (viewers (leaveRoom user room))"
          using v ne me(2) by (auto simp: leaveRoom_def)
        moreover from this have "viewers (leaveRoom user room) \<noteq> []" by auto
        ultimately show ?thesis using Viewer True
          by (auto simp: parted_def Let_def delete_conv' update_conv')
      qed
    qed
    with o(1,2) conn
    show "y \<noteq> [] \<and> idU u' = y \<and> Map_get (connections (parted user room s)) y \<noteq> None \<and>
       (\<exists>room3. Map_get (rooms (parted user room s)) (roomId u') = Some room3 \<and>
          (if role u' = Broadcaster then broadcaster room3 = Some y
           else y \<in> set (viewers room3)))" by blast
  qed
qed

lemma parted_rooms_ok:
  assumes inv: "hub_inv C s" and u: "Map_get (users s) uid = Some user"
    and r: "Map_get (rooms s) (roomId user) = Some room"
  shows "rooms_ok (parted user room s)"
proof -
  have uo: "users_ok s" and ro: "rooms_ok s" using inv by (simp_all add: hub_inv_def)
  from uo u r have me: "uid \<noteq> []" "idU user = uid"
    "if role user = Broadcaster then broadcaster room = Some uid else uid \<in> set (viewers room)"
    unfolding users_ok_def by fastforce+
  from ro r have rm: "idR room = roomId user" "distinct (viewers room)"
    "\<And>b. broadcaster room = Some b \<Longrightarrow>
       (\<exists>u. Map_get (users s) b = Some u \<and> role u = Broadcaster \<and> roomId u = roomId user)"
    "\<And>v. v \<in> set (viewers room) \<Longrightarrow>
       \<exists>u. Map_get (users s) v = Some u \<and> role u = Viewer \<and> roomId u = roomId user"
    unfolding rooms_ok_def by blast+
  have tr: "truthy (broadcaster (leaveRoom user room)) \<longleftrightarrow> broadcaster (leaveRoom user room) \<noteq> None"
    using not_truthy_broadcaster [OF uo ro r] by (auto simp: leaveRoom_def truthy_def)
  show ?thesis
    unfolding rooms_ok_def
  proof (intro allI impI)
    fix rid room2
    assume lk: "Map_get (rooms (parted user room s)) rid = Some room2"
    show "idR room2 = rid \<and> distinct (viewers room2) \<and>
       (broadcaster room2 \<noteq> None \<or> viewers room2 \<noteq> []) \<and>
       (\<forall>b. broadcaster room2 = Some b \<longrightarrow>
          (\<exists>u. Map_get (users (parted user room s)) b = Some u \<and> role u = Broadcaster \<and> roomId u = rid)) \<and>
       (\<forall>v \<in> set (viewers room2).
          \<exists>u. Map_get (users (parted user room s)) v = Some u \<and> role u = Viewer \<and> roomId u = rid)"
    proof (cases "rid = roomId user")
      case True
      with lk have r2: "room2 = leaveRoom user room"
        and stay: "\<not> (\<not> truthy (broadcaster (leaveRoom user room)) \<and> viewers (leaveRoom user room) = [])"
        by (auto simp: parted_def Let_def delete_conv' update_conv' split: if_splits)
      have a: "idR room2 = rid" "distinct (viewers room2)"
        using r2 rm(1,2) True by (auto simp: leaveRoom_def)
      have b: "broadcaster room2 \<noteq> None \<or> viewers room2 \<noteq> []"
        using stay tr r2 by blast
      have c: "\<exists>u. Map_get (users (parted user room s)) b = Some u \<and> role u = Broadcaster \<and> roomId u = rid"
        if "broadcaster room2 = Some b" for b
      proof -
        from that r2 have uv: "role user = Viewer" and bb: "broadcaster room = Some b"
          by (cases "role user"; auto simp: leaveRoom_def)+
        from rm(3) [OF bb] obtain ub where ub: "Map_get (users s) b = Some ub" "role ub = Broadcaster"
          "roomId ub = roomId user" by blast
        with u uv have "b \<noteq> uid" by auto
        with ub True me(2) show ?thesis by (simp add: parted_def Let_def delete_conv')
      qed
      have d: "\<exists>u. Map_get (users (parted user room s)) v = Some u \<and> role u = Viewer \<and> roomId u = rid"
        if "v \<in> set (viewers room2)" for v
      proof -
        from that r2 have vv: "v \<in> set (viewers room)" by (auto simp: leaveRoom_def split: if_splits)
        from rm(4) [OF vv] obtain uv where uv: "Map_get (users s) v = Some uv" "role uv = Viewer"
          "roomId uv = roomId user" by blast
        have "v \<noteq> uid"
        proof (cases "role user")
          case Broadcaster
          with u uv show ?thesis by auto
        next
          case Viewer
          with that r2 me(2) show ?thesis by (auto simp: leaveRoom_def)
        qed
        with uv True me(2) show ?thesis by (simp add: parted_def Let_def delete_conv')
      qed
      from a b c d show ?thesis by blast
    next
      case False
      with lk have old: "Map_get (rooms s) rid = Some room2"
        by (auto simp: parted_def Let_def delete_conv' update_conv' split: if_splits)
      with ro have o: "idR room2 = rid" "distinct (viewers room2)"
        "broadcaster room2 \<noteq> None \<or> viewers room2 \<noteq> []"
        "\<And>b. broadcaster room2 = Some b \<Longrightarrow>
          (\<exists>u. Map_get (users s) b = Some u \<and> role u = Broadcaster \<and> roomId u = rid)"
        "\<And>v. v \<in> set (viewers room2) \<Longrightarrow>
          \<exists>u. Map_get (users s) v = Some u \<and> role u = Viewer \<and> roomId u = rid"
        unfolding rooms_ok_def by blast+
      have keep: "Map_get (users (parted user room s)) x = Some ux"
        if "Map_get (users s) x = Some ux" "roomId ux = rid" for x ux
      proof -
        from that u False have "x \<noteq> uid" by auto
        with that me(2) show ?thesis by (simp add: parted_def Let_def delete_conv')
      qed
      show ?thesis using o keep by blast
    qed
  qed
qed

lemma parted_streams_ok:
  assumes inv: "hub_inv C s" and u: "Map_get (users s) uid = Some user"
    and r: "Map_get (rooms s) (roomId user) = Some room"
  shows "streams_ok (parted user room s)"
proof -
  have uo: "users_ok s" and ro: "rooms_ok s" and so: "streams_ok s"
    using inv by (simp_all add: hub_inv_def)
  have tr: "truthy (broadcaster room) \<longleftrightarrow> broadcaster room \<noteq> None"
    by (rule not_truthy_broadcaster [OF uo ro r])
  show ?thesis
    unfolding streams_ok_def
  proof (intro allI impI)
    fix rid
    assume a: "Map_get (activeStreams (parted user room s)) rid = Some True"
    then have old: "Map_get (activeStreams s) rid = Some True"
      by (auto simp: parted_def Let_def delete_conv' split: if_splits)
    with so obtain room2 where r2: "Map_get (rooms s) rid = Some room2" "broadcaster room2 \<noteq> None"
      unfolding streams_ok_def by blast
    show "\<exists>room3. Map_get (rooms (parted user room s)) rid = Some room3 \<and> broadcaster room3 \<noteq> None"
    proof (cases "rid = roomId user")
      case False
      with r2 show ?thesis
        by (auto simp: parted_def Let_def delete_conv' update_conv')
    next
      case True
      with a have uv: "role user = Viewer"
        by (cases "role user") (auto simp: parted_def Let_def delete_conv')
      from True r2 r have "broadcaster room \<noteq> None" by simp
      with tr uv True show ?thesis
        by (auto simp: parted_def Let_def delete_conv' update_conv' leaveRoom_def)
    qed
  qed
qed

lemma parted_chats_ok:
  assumes inv: "hub_inv C s"
  shows "chats_ok (parted user room s)"
  using inv unfolding hub_inv_def chats_ok_def
  by (auto simp: parted_def Let_def delete_conv' update_conv' split: if_splits)

lemma parted_sessions_ok:
  assumes inv: "hub_inv C s" and u: "Map_get (users s) uid = Some user"
    and c: "Map_get (connections s) uid = Some w"
  shows "sessions_ok (insert w C) (parted user room s)"
proof -
  have uo: "users_ok s" and so: "sessions_ok C s" using inv by (simp_all add: hub_inv_def)
  from uo u have me: "idU user = uid" unfolding users_ok_def by blast
  show ?thesis
    unfolding sessions_ok_def
  proof (intro allI impI)
    fix w' y
    assume a: "w' \<notin> insert w C \<and> currentUserId (parted user room s) w' = Some y"
    then have "w' \<notin> C" "w' \<noteq> w" "currentUserId s w' = Some y"
      by (auto simp: parted_def Let_def)
    with so have old: "Map_get (users s) y \<noteq> None" "Map_get (connections s) y = Some w'"
      unfolding sessions_ok_def by blast+
    with c \<open>w' \<noteq> w\<close> have "y \<noteq> uid" by auto
    with old me show "Map_get (users (parted user room s)) y \<noteq> None \<and>
          Map_get (connections (parted user room s)) y = Some w'"
      by (simp add: parted_def Let_def delete_conv')
  qed
qed

lemma parted_connections_ok:
  assumes inv: "hub_inv C s"
  shows "connections_ok (parted user room s)"
  using inv unfolding hub_inv_def connections_ok_def
  by (auto simp: parted_def Let_def delete_conv' split: if_splits)

lemma sessions_ok_mono: "sessions_ok C s \<Longrightarrow> sessions_ok (insert w C) s"
  unfolding sessions_ok_def by blast

lemma on_close_inv:
  assumes inv: "hub_inv C s" and w: "w \<notin> C"
  shows "hub_inv (insert w C) (on_close w env s)"
proof (cases "truthy (currentUserId s w)")
  case False
  then show ?thesis using inv sessions_ok_mono
    by (simp add: on_close_idle hub_inv_def)
next
  case True
  then obtain uid where cur: "currentUserId s w = Some uid" "uid \<noteq> []"
    by (auto simp: truthy_def split: option.splits)
  have uo: "users_ok s" and so: "sessions_ok C s" using inv by (simp_all add: hub_inv_def)
  from so cur w obtain user where u: "Map_get (users s) uid = Some user"
    and c: "Map_get (connections s) uid = Some w"
    unfolding sessions_ok_def by blast
  from uo u obtain room where me: "idU user = uid"
    and r: "Map_get (rooms s) (roomId user) = Some room"
    unfolding users_ok_def by blast
  have "hub_inv (insert w C) (parted user room s)"
    unfolding hub_inv_def
    using parted_users_ok [OF inv u r] parted_rooms_ok [OF inv u r] parted_streams_ok [OF inv u r]
      parted_chats_ok [OF inv] parted_sessions_ok [OF inv u c] parted_connections_ok [OF inv]
    by blast
  with on_close_effect [OF cur u me r] show ?thesis
    by (rule hub_inv_sends_only)
qed

lemma chat_message_inv:
  assumes inv: "hub_inv C s"
  shows "hub_inv C (chat_message w m env s)"
proof -
  have uo: "users_ok s" and co: "chats_ok s" using inv by (simp_all add: hub_inv_def)
  have step: "hub_inv C (s\<lparr> chatMessages := Map_set (roomId user) ms (chatMessages s) \<rparr>)"
    if "Map_get (users s) uid = Some user" for uid user ms
  proof -
    from uo that obtain room where "Map_get (rooms s) (roomId user) = Some room"
      unfolding users_ok_def by blast
    with inv show ?thesis
      unfolding hub_inv_def users_ok_def rooms_ok_def streams_ok_def chats_ok_def sessions_ok_def
        connections_ok_def
      by (simp add: update_conv')
  qed
  show ?thesis
  proof (cases "truthy (currentUserId s w)")
    case False
    with inv show ?thesis by (simp add: chat_message_def)
  next
    case True
    show ?thesis
    proof (cases "Map_get (users s) (the (currentUserId s w))")
      case None
      with inv show ?thesis by (simp add: chat_message_def)
    next
      case (Some user)
      let ?ms = "(case Map_get (chatMessages s) (roomId user) of Some ms \<Rightarrow> ms | None \<Rightarrow> [])"
      have "\<exists>ms. sends_only (s\<lparr> chatMessages := Map_set (roomId user) ms (chatMessages s) \<rparr>)
              (chat_message w m env s)"
        using True Some unfolding chat_message_def sends_only_def
        by (auto simp: Let_def broadcastToRoom_eq sendMessage_def split: option.splits)
      then obtain ms where "sends_only (s\<lparr> chatMessages := Map_set (roomId user) ms (chatMessages s) \<rparr>)
              (chat_message w m env s)" by blast
      from hub_inv_sends_only [OF this step [OF Some]] show ?thesis .
    qed
  qed
qed

lemma sends_only_notify_fold:
  "sends_only s (foldl (\<lambda>s' (i, viewerId).
       notifyViewerOfBroadcaster rid viewerId (f i) s') s xs)"
  by (rule sends_only_foldl) (auto simp: sends_only_notify)

lemma stream_ready_inv:
  assumes inv: "hub_inv C s"
  shows "hub_inv C (stream_ready w env s)"
proof -
  have uo: "users_ok s" using inv by (simp add: hub_inv_def)
  show ?thesis
  proof (cases "truthy (currentUserId s w) \<and>
      (\<exists>user. Map_get (users s) (the (currentUserId s w)) = Some user \<and> role user = Broadcaster)")
    case False
    with inv show ?thesis by (auto simp: stream_ready_def split: option.splits)
  next
    case True
    then obtain user where u: "Map_get (users s) (the (currentUserId s w)) = Some user"
      "role user = Broadcaster" "truthy (currentUserId s w)" by blast
    from uo u obtain room where r: "Map_get (rooms s) (roomId user) = Some room"
      "broadcaster room = Some (the (currentUserId s w))"
      unfolding users_ok_def by fastforce
    let ?s1 = "s\<lparr> activeStreams := Map_set (roomId user) True (activeStreams s) \<rparr>"
    have i1: "hub_inv C ?s1"
      using inv r unfolding hub_inv_def users_ok_def rooms_ok_def streams_ok_def chats_ok_def
        sessions_ok_def connections_ok_def
      by (simp add: update_conv')
    have "stream_ready w env s = foldl (\<lambda>s' (i, viewerId).
             notifyViewerOfBroadcaster (roomId user) viewerId (now env (i + 1)) s')
             ?s1 (zip [0 ..< length (viewers room)] (viewers room))"
      using u r by (simp add: stream_ready_def Let_def)
    then have "sends_only ?s1 (stream_ready w env s)"
      by (simp add: sends_only_notify_fold)
    from hub_inv_sends_only [OF this i1] show ?thesis .
  qed
qed

lemma viewer_ready_sends: "sends_only s (viewer_ready w env s)"
  unfolding viewer_ready_def
  by (auto simp: sends_only_refl sends_only_sendMessage split: option.splits)

lemma signal_sends: "sends_only s (signal w ty p env s)"
  unfolding signal_def
  by (auto simp: sends_only_refl sends_only_sendMessage split: option.splits)

lemma on_message_inv:
  assumes "hub_inv C s" "fresh env s"
  shows "hub_inv C (on_message w m env s)"
proof (cases m)
  case (JoinRoom p)
  then show ?thesis using join_room_inv [OF assms] by simp
next
  case (ChatMessageIn c)
  then show ?thesis using chat_message_inv [OF assms(1)] by simp
next
  case StreamReady
  then show ?thesis using stream_ready_inv [OF assms(1)] by simp
next
  case ViewerReady
  then show ?thesis using hub_inv_sends_only [OF viewer_ready_sends assms(1)] by simp
next
  case (Offer p)
  then show ?thesis using hub_inv_sends_only [OF signal_sends assms(1)] by simp
next
  case (Answer p)
  then show ?thesis using hub_inv_sends_only [OF signal_sends assms(1)] by simp
next
  case (IceCandidate p)
  then show ?thesis using hub_inv_sends_only [OF signal_sends assms(1)] by simp
next
  case (Unhandled ty)
  then show ?thesis using assms(1) by simp
qed

lemma hub_init_inv: "hub_inv {} hub_init"
  by (simp add: hub_inv_def users_ok_def rooms_ok_def streams_ok_def chats_ok_def sessions_ok_def
        connections_ok_def hub_init_def)

lemma reachable_inv: "reachable C s \<Longrightarrow> hub_inv C s"
proof (induction rule: reachable.induct)
  case start
  show ?case by (rule hub_init_inv)
next
  case (message C s w env m)
  then show ?case by (simp add: on_message_inv)
next
  case (close C s w env)
  then show ?case by (simp add: on_close_inv)
qed

subsection \<open>One identity per connection, when no connection is seated twice\<close>

lemma chat_message_owner:
  "connections (chat_message w m env s) = connections s"
  "currentUserId (chat_message w m env s) = currentUserId s"
  by (simp_all add: chat_message_def Let_def broadcastToRoom_eq split: option.split)

lemma stream_ready_owner:
  "connections (stream_ready w env s) = connections s"
  "currentUserId (stream_ready w env s) = currentUserId s"
  by (simp_all add: stream_ready_def Let_def sends_only_fields(3,6) [OF sends_only_notify_fold]
        split: option.split)

lemma on_close_owner:
  "connections (on_close w env s)
     = (if truthy (currentUserId s w) then Map_delete (the (currentUserId s w)) (connections s)
        else connections s)"
  "currentUserId (on_close w env s) = currentUserId s"
  by (simp_all add: on_close_def Let_def broadcastToRoom_eq split: option.split)

lemma on_message_owner:
  assumes "owner_ok s"
    and "\<forall>p. m = JoinRoom p \<and> join_accepted env s p \<longrightarrow> currentUserId s w = None"
  shows "owner_ok (on_message w m env s)"
proof (cases m)
  case (JoinRoom p)
  show ?thesis
  proof (cases "join_accepted env s p")
    case True
    with assms(2) JoinRoom have none: "currentUserId s w = None" by blast
    note f = sends_only_fields(3,6) [OF join_room_accepted [OF True, where w = w]]
    have "owner_ok (seated w p env s)"
      using assms(1) none unfolding owner_ok_def
      by (auto simp: seated_def Let_def update_conv')
    then show ?thesis using JoinRoom f by (simp add: owner_ok_def)
  next
    case False
    note f = sends_only_fields(3,6) [OF join_room_rejected [OF False, where w = w]]
    show ?thesis using JoinRoom f assms(1) by (simp add: owner_ok_def)
  qed
next
  case (ChatMessageIn c)
  then show ?thesis using assms(1) by (simp add: owner_ok_def chat_message_owner)
next
  case StreamReady
  then show ?thesis using assms(1) by (simp add: owner_ok_def stream_ready_owner)
next
  case ViewerReady
  then show ?thesis using assms(1) sends_only_fields(3,6) [OF viewer_ready_sends, of w env s]
    by (simp add: owner_ok_def)
next
  case (Offer p)
  then show ?thesis using assms(1) sends_only_fields(3,6) [OF signal_sends, of w OFFER p env s]
    by (simp add: owner_ok_def)
next
  case (Answer p)
  then show ?thesis using assms(1) sends_only_fields(3,6) [OF signal_sends, of w ANSWER p env s]
    by (simp add: owner_ok_def)
next
  case (IceCandidate p)
  then show ?thesis
    using assms(1) sends_only_fields(3,6) [OF signal_sends, of w ICE_CANDIDATE p env s]
    by (simp add: owner_ok_def)
next
  case (Unhandled ty)
  then show ?thesis using assms(1) by simp
qed

lemma on_close_owner_ok: "owner_ok s \<Longrightarrow> owner_ok (on_close w env s)"
  unfolding owner_ok_def
  by (auto simp: on_close_owner delete_conv' split: if_splits)

lemma reachable_once_owner: "reachable_once C s \<Longrightarrow> owner_ok s"
proof (induction rule: reachable_once.induct)
  case start
  show ?case by (simp add: owner_ok_def hub_init_def)
next
  case (message C s w env m)
  then show ?case by (simp add: on_message_owner)
next
  case (close C s w env)
  then show ?case by (simp add: on_close_owner_ok)
qed

lemma one_identity_per_session_without_rejoin:
  assumes "reachable_once C s"
    and "Map_get (connections s) uid1 = Some w" and "Map_get (connections s) uid2 = Some w"
  shows "uid1 = uid2"
proof -
  have o: "owner_ok s" by (rule reachable_once_owner [OF assms(1)])
  from o assms(2) have "currentUserId s w = Some uid1" unfolding owner_ok_def by blast
  moreover from o assms(3) have "currentUserId s w = Some uid2" unfolding owner_ok_def by blast
  ultimately show ?thesis by simp
qed

subsection \<open>What the handlers send\<close>

lemma stream_ready_effect:
  assumes "currentUserId s w = Some uid" "uid \<noteq> []" "Map_get (users s) uid = Some user"
    "role user = Broadcaster"
  shows "sends_only (s\<lparr> activeStreams := Map_set (roomId user) True (activeStreams s) \<rparr>)
           (stream_ready w env s)"
proof (cases "Map_get (rooms s) (roomId user)")
  case None
  with assms show ?thesis
    by (simp add: stream_ready_def Let_def truthy_def sends_only_refl)
next
  case (Some room)
  with assms show ?thesis
    by (simp add: stream_ready_def Let_def truthy_def sends_only_notify_fold)
qed

lemma chat_private_sent:
  assumes "currentUserId s w = Some uid" "uid \<noteq> []" "Map_get (users s) uid = Some user"
    "typeC m = Private" "recipientId m = Some rcp" "rcp \<noteq> []"
  shows "sent (chat_message w m env s)
           = sent s @ (case Map_get (connections s) rcp of
                         Some recipientWs \<Rightarrow> [(recipientWs, chatReceived (mintMessage user m env))]
                       | None \<Rightarrow> [])
                    @ [(w, chatReceived (mintMessage user m env))]"
  using assms
  by (simp add: chat_message_def Let_def truthy_def split: option.split)

lemma chat_public_sent:
  assumes "currentUserId s w = Some uid" "uid \<noteq> []" "Map_get (users s) uid = Some user"
    "typeC m = Public"
  shows "sent (chat_message w m env s)
           = sent s @ fanout s (roomId user) (chatReceived (mintMessage user m env)) None"
  using assms
  by (simp add: chat_message_def Let_def truthy_def broadcastToRoom_eq fanout_def
        split: option.split cong: if_cong)

lemma fanout_all:
  assumes "Map_get (rooms s) rid = Some room"
    and "\<forall>member \<in> set (memberIds room). Map_get (connections s) member \<noteq> None"
  shows "fanout s rid m None = map (\<lambda>member. (the (Map_get (connections s) member), m)) (memberIds room)"
proof -
  have "concat (map (\<lambda>userId. case Map_get (connections s) userId of
                                 Some userWs \<Rightarrow> [(userWs, m)] | None \<Rightarrow> []) xs)
        = map (\<lambda>member. (the (Map_get (connections s) member), m)) xs"
    if "\<forall>member \<in> set xs. Map_get (connections s) member \<noteq> None" for xs
    using that by (induction xs) auto
  from this [OF assms(2)] show ?thesis
    using assms(1) by (simp add: fanout_def truthy_def)
qed

lemma members_ok:
  assumes "hub_inv C s" "Map_get (rooms s) rid = Some room"
  shows "distinct (memberIds room)"
    and "\<forall>member \<in> set (memberIds room). Map_get (connections s) member \<noteq> None"
proof -
  have uo: "users_ok s" and ro: "rooms_ok s" using assms(1) by (simp_all add: hub_inv_def)
  from ro assms(2) have r: "distinct (viewers room)"
    "\<And>b. broadcaster room = Some b \<Longrightarrow>
       (\<exists>u. Map_get (users s) b = Some u \<and> role u = Broadcaster \<and> roomId u = rid)"
    "\<And>v. v \<in> set (viewers room) \<Longrightarrow>
       \<exists>u. Map_get (users s) v = Some u \<and> role u = Viewer \<and> roomId u = rid"
    unfolding rooms_ok_def by blast+
  have "b \<notin> set (viewers room)" if "broadcaster room = Some b" for b
    using r(2) [OF that] r(3) [of b] by auto
  with r(1) show "distinct (memberIds room)"
    by (auto simp: memberIds_def truthy_def split: option.splits)
  have "Map_get (users s) member \<noteq> None" if "member \<in> set (memberIds room)" for member
    using that r(2) r(3) by (auto simp: memberIds_def truthy_def split: option.splits if_splits)
  with uo show "\<forall>member \<in> set (memberIds room). Map_get (connections s) member \<noteq> None"
    unfolding users_ok_def by blast
qed

lemma join_viewer_sent:
  assumes r: "Map_get (rooms s) rid = Some room" and b: "broadcaster room = Some b" "b \<noteq> []"
    and v: "viewers room = []" and cb: "Map_get (connections s) b = Some wb"
    and ub: "Map_get (users s) b = Some ub"
    and st: "Map_get (activeStreams s) rid \<noteq> Some True"
    and free: "\<not> isUsernameTaken env s rid uname"
    and fr: "uuid env \<noteq> []" "uuid env \<noteq> b"
  shows "sent (join_room w \<lparr> roomIdJ = rid, usernameJ = uname, roleJ = Viewer \<rparr> env s)
     = sent s @
        [(w, \<lparr> typeW = ROOM_JOINED,
               payload = RoomJoinedP
                 (Some \<lparr> idR = idR room, name = name room, broadcaster = Some b,
                          viewers = [uuid env],
                          usersR = [ub, \<lparr> idU = uuid env, username = uname, role = Viewer,
                                          roomId = rid \<rparr>] \<rparr>)
                 \<lparr> idU = uuid env, username = uname, role = Viewer, roomId = rid \<rparr>
                 (getRoomMessages s rid 50),
               timestamp = now env 0 \<rparr>),
         (wb, \<lparr> typeW = USER_JOINED,
                payload = UserJoinedP \<lparr> idU = uuid env, username = uname, role = Viewer,
                                        roomId = rid \<rparr>,
                timestamp = now env 0 \<rparr>),
         (wb, \<lparr> typeW = ROOM_STATE,
                payload = RoomStateP
                 (Some \<lparr> idR = idR room, name = name room, broadcaster = Some b,
                          viewers = [uuid env],
                          usersR = [ub, \<lparr> idU = uuid env, username = uname, role = Viewer,
                                          roomId = rid \<rparr>] \<rparr>),
                timestamp = now env 0 \<rparr>),
         (w, \<lparr> typeW = ROOM_STATE,
               payload = RoomStateP
                 (Some \<lparr> idR = idR room, name = name room, broadcaster = Some b,
                          viewers = [uuid env],
                          usersR = [ub, \<lparr> idU = uuid env, username = uname, role = Viewer,
                                          roomId = rid \<rparr>] \<rparr>),
               timestamp = now env 0 \<rparr>)]"
  using assms
  by (simp add: join_room_def join_seat_def Let_def broadcastToRoom_eq fanout_def memberIds_def
        truthy_def update_conv' seatIn_def joinedUser_def getRoomWithUsers_def
        getRoomMessages_def)

subsection \<open>The run, evaluated\<close>

lemmas eval_defs = join_room_def join_seat_def Let_def sendMessage_def broadcastToRoom_def
  notifyViewerOfBroadcaster_def getRoomWithUsers_def getRoomMessages_def slice_from_def
  isUsernameTaken_def truthy_def memberIds_def errorMessage_def newRoom_def joinedUser_def
  seatIn_def hub_init_def clock0_def envU1_def envU2_def envU3_def joinAlice_def joinBob_def

lemma lower_Alice: "lowerAscii ''Alice'' = ''alice''" by code_simp
lemma lower_Bob: "lowerAscii ''Bob'' = ''bob''" by code_simp
lemma lower_ALICE: "lowerAscii ''ALICE'' = ''alice''" by code_simp
lemma lower_Carol: "lowerAscii ''Carol'' = ''carol''" by code_simp

lemma hubA_fields:
  "rooms hubA = [(''r'', \<lparr> idR = ''r'', name = ''Room r'', broadcaster = Some ''u1'', viewers = [] \<rparr>)]"
  "users hubA = [(''u1'', \<lparr> idU = ''u1'', username = ''Alice'', role = Broadcaster, roomId = ''r'' \<rparr>)]"
  "connections hubA = [(''u1'', 1)]"
  "activeStreams hubA = []"
  "chatMessages hubA = [(''r'', [])]"
  "currentUserId hubA = (\<lambda>_. None)(1 := Some ''u1'')"
  unfolding hubA_def by (simp_all add: eval_defs)

lemma hubAB_fields:
  "rooms hubAB = [(''r'', \<lparr> idR = ''r'', name = ''Room r'', broadcaster = Some ''u1'', viewers = [''u2''] \<rparr>)]"
  "users hubAB = [(''u1'', \<lparr> idU = ''u1'', username = ''Alice'', role = Broadcaster, roomId = ''r'' \<rparr>),
                  (''u2'', \<lparr> idU = ''u2'', username = ''Bob'', role = Viewer, roomId = ''r'' \<rparr>)]"
  "connections hubAB = [(''u1'', 1), (''u2'', 2)]"
  "activeStreams hubAB = []"
  "chatMessages hubAB = [(''r'', [])]"
  "currentUserId hubAB = (\<lambda>_. None)(1 := Some ''u1'', 2 := Some ''u2'')"
  unfolding hubAB_def hubA_def by (simp_all add: eval_defs lower_Alice lower_Bob)

lemma reachable_hubA: "reachable {} hubA"
  unfolding hubA_def
  by (rule reachable.message [OF reachable.start]) (simp_all add: fresh_def envU1_def hub_init_def)

lemma reachable_hubAB: "reachable {} hubAB"
  unfolding hubAB_def
  by (rule reachable.message [OF reachable_hubA]) (simp_all add: fresh_def envU2_def hubA_fields)

lemmas eval_defs2 = eval_defs joinAliceQ_def joinBobQ_def


lemma hubRejoin_fields:
  "rooms hubRejoin = [(''r'', \<lparr> idR = ''r'', name = ''Room r'', broadcaster = Some ''u1'', viewers = [] \<rparr>),
                      (''q'', \<lparr> idR = ''q'', name = ''Room q'', broadcaster = Some ''u2'', viewers = [] \<rparr>)]"
  "users hubRejoin = [(''u1'', \<lparr> idU = ''u1'', username = ''Alice'', role = Broadcaster, roomId = ''r'' \<rparr>),
                      (''u2'', \<lparr> idU = ''u2'', username = ''Alice'', role = Broadcaster, roomId = ''q'' \<rparr>)]"
  "connections hubRejoin = [(''u1'', 1), (''u2'', 1)]"
  "activeStreams hubRejoin = []"
  "chatMessages hubRejoin = [(''r'', []), (''q'', [])]"
  "currentUserId hubRejoin = (\<lambda>_. None)(1 := Some ''u2'')"
  unfolding hubRejoin_def hubA_def by (simp_all add: eval_defs2)

lemma hubLive_fields:
  "rooms hubLive = rooms hubAB" "users hubLive = users hubAB"
  "connections hubLive = connections hubAB"
  "activeStreams hubLive = [(''r'', True)]"
  "currentUserId hubLive = currentUserId hubAB"
  unfolding hubLive_def
  by (simp_all add: stream_ready_def hubAB_fields eval_defs2)

lemma hubLeft_fields:
  "rooms hubLeft = [(''r'', \<lparr> idR = ''r'', name = ''Room r'', broadcaster = None, viewers = [''u2''] \<rparr>)]"
  "users hubLeft = [(''u2'', \<lparr> idU = ''u2'', username = ''Bob'', role = Viewer, roomId = ''r'' \<rparr>)]"
  "connections hubLeft = [(''u2'', 2)]"
  "activeStreams hubLeft = []"
  "chatMessages hubLeft = [(''r'', [])]"
  "currentUserId hubLeft = (\<lambda>_. None)(1 := Some ''u1'', 2 := Some ''u2'')"
  unfolding hubLeft_def
  by (simp_all add: on_close_def hubAB_fields eval_defs2)

lemma hubEmpty_fields:
  "rooms hubEmpty = []" "users hubEmpty = []" "connections hubEmpty = []"
  "activeStreams hubEmpty = []" "chatMessages hubEmpty = []"
  unfolding hubEmpty_def
  by (simp_all add: on_close_def hubLeft_fields eval_defs2)

lemma reachable_hubAQ: "reachable {} hubAQ"
  unfolding hubAQ_def
  by (rule reachable.message [OF reachable_hubA]) (simp_all add: fresh_def envU2_def hubA_fields)

lemma reachable_hubRejoin: "reachable {} hubRejoin"
  unfolding hubRejoin_def
  by (rule reachable.message [OF reachable_hubA]) (simp_all add: fresh_def envU2_def hubA_fields)

lemma reachable_hubLive: "reachable {} hubLive"
  unfolding hubLive_def
  by (rule reachable.message [OF reachable_hubAB]) (simp_all add: fresh_def envU3_def hubAB_fields)

lemma reachable_hubLeft: "reachable {1} hubLeft"
  unfolding hubLeft_def
  by (rule reachable.close [OF reachable_hubAB]) simp

lemma reachable_hubEmpty: "reachable {2, 1} hubEmpty"
  unfolding hubEmpty_def
  by (rule reachable.close [OF reachable_hubLeft]) simp

lemma hubALive_fields:
  "rooms hubALive = rooms hubA" "users hubALive = users hubA"
  "connections hubALive = connections hubA"
  "activeStreams hubALive = [(''r'', True)]"
  "chatMessages hubALive = chatMessages hubA"
  "currentUserId hubALive = currentUserId hubA"
  unfolding hubALive_def
  by (simp_all add: stream_ready_def hubA_fields eval_defs2)

lemma hubGhost_fields:
  "rooms hubGhost = [(''r'', \<lparr> idR = ''r'', name = ''Room r'', broadcaster = Some ''u1'', viewers = [] \<rparr>),
                     (''q'', \<lparr> idR = ''q'', name = ''Room q'', broadcaster = Some ''u2'', viewers = [] \<rparr>)]"
  "users hubGhost = [(''u1'', \<lparr> idU = ''u1'', username = ''Alice'', role = Broadcaster, roomId = ''r'' \<rparr>),
                     (''u2'', \<lparr> idU = ''u2'', username = ''Alice'', role = Broadcaster, roomId = ''q'' \<rparr>)]"
  "connections hubGhost = [(''u1'', 1), (''u2'', 1)]"
  "activeStreams hubGhost = [(''r'', True)]"
  "chatMessages hubGhost = [(''r'', []), (''q'', [])]"
  "currentUserId hubGhost = (\<lambda>_. None)(1 := Some ''u2'')"
  unfolding hubGhost_def
  by (simp_all add: hubALive_fields hubA_fields eval_defs2)

lemma reachable_hubALive: "reachable {} hubALive"
  unfolding hubALive_def
  by (rule reachable.message [OF reachable_hubA]) (simp_all add: fresh_def envU3_def hubA_fields)

lemma reachable_hubGhost: "reachable {} hubGhost"
  unfolding hubGhost_def
  by (rule reachable.message [OF reachable_hubALive])
     (simp_all add: fresh_def envU2_def hubALive_fields hubA_fields)

lemma isUsernameTaken_iff:
  assumes "Map_get (rooms s) rid = Some room"
  shows "isUsernameTaken env s rid uname \<longleftrightarrow>
     (\<exists>u \<in> snd ` set (users s).
        roomId u = rid \<and> toLowerCase env (username u) = toLowerCase env uname)"
  using assms by (auto simp: isUsernameTaken_def Let_def list_ex_iff)

lemma stream_flag_of_current_broadcaster:
  assumes "reachable C s"
  shows "(\<forall>rid. Map_get (activeStreams s) rid = Some True \<longrightarrow>
            (\<exists>room. Map_get (rooms s) rid = Some room \<and> broadcaster room \<noteq> None))
       \<and> (\<forall>w uid rid room env.
            currentUserId s w = Some uid \<and> Map_get (rooms s) rid = Some room \<and>
            broadcaster room = Some uid \<longrightarrow>
            Map_get (activeStreams (on_message w StreamReady env s)) rid = Some True \<and>
            Map_get (activeStreams (on_close w env s)) rid = None)"
proof -
  have inv: "hub_inv C s" by (rule reachable_inv [OF assms])
  then have uo: "users_ok s" and ro: "rooms_ok s" and so: "streams_ok s"
    by (simp_all add: hub_inv_def)
  have a: "\<exists>room. Map_get (rooms s) rid = Some room \<and> broadcaster room \<noteq> None"
    if "Map_get (activeStreams s) rid = Some True" for rid
    using so that unfolding streams_ok_def by blast
  have b: "Map_get (activeStreams (on_message w StreamReady env s)) rid = Some True \<and>
           Map_get (activeStreams (on_close w env s)) rid = None"
    if cur: "currentUserId s w = Some uid" and r: "Map_get (rooms s) rid = Some room"
      and br: "broadcaster room = Some uid" for w uid rid room env
  proof -
    from ro r br obtain user where u: "Map_get (users s) uid = Some user" "role user = Broadcaster"
      "roomId user = rid" unfolding rooms_ok_def by blast
    from uo u(1) have ne: "uid \<noteq> []" and me: "idU user = uid" unfolding users_ok_def by blast+
    have r': "Map_get (rooms s) (roomId user) = Some room" using r u(3) by simp
    have "activeStreams (stream_ready w env s) = Map_set rid True (activeStreams s)"
      using sends_only_fields(4) [OF stream_ready_effect [OF cur ne u(1,2)]] u(3) by simp
    moreover have "activeStreams (on_close w env s) = Map_delete rid (activeStreams s)"
      using sends_only_fields(4) [OF on_close_effect [OF cur ne u(1) me r']] u(2,3)
      by (simp add: parted_def Let_def)
    ultimately show ?thesis by (simp add: update_conv' delete_conv')
  qed
  show ?thesis using a b by blast
qed

section \<open>The claims\<close>

text \<open>
  C1, as the code has it. In every reachable state an identity with role broadcaster is the
  one its room's \<open>broadcaster\<close> field names, so a room has at most one. A \<open>JOIN_ROOM\<close> as
  broadcaster for a room of the registry whose \<open>broadcaster\<close> is set changes nothing but the log
  of sent envelopes, which gains one \<open>ERROR\<close> envelope for the requester: its code is
  \<open>USER_EXISTS\<close> when an identity of that room has the same username after \<open>toLowerCase\<close> (the
  check that comes first), \<open>BROADCASTER_EXISTS\<close> otherwise.
\<close>

theorem C1_one_broadcaster:
  assumes "reachable C s"
  shows "(\<forall>uid u. Map_get (users s) uid = Some u \<and> role u = Broadcaster \<longrightarrow>
            (\<exists>room. Map_get (rooms s) (roomId u) = Some room \<and> broadcaster room = Some uid))
       \<and> (\<forall>uid1 u1 uid2 u2.
            Map_get (users s) uid1 = Some u1 \<and> role u1 = Broadcaster \<and>
            Map_get (users s) uid2 = Some u2 \<and> role u2 = Broadcaster \<and>
            roomId u1 = roomId u2 \<longrightarrow> uid1 = uid2)
       \<and> (\<forall>w rid uname env room.
            Map_get (rooms s) rid = Some room \<and> broadcaster room \<noteq> None \<longrightarrow>
            on_message w (JoinRoom \<lparr> roomIdJ = rid, usernameJ = uname, roleJ = Broadcaster \<rparr>) env s
              = s\<lparr> sent := sent s @
                     [(w, \<lparr> typeW = ERROR,
                            payload = ErrorP
                              (if \<exists>u \<in> snd ` set (users s).
                                     roomId u = rid \<and>
                                     toLowerCase env (username u) = toLowerCase env uname
                               then \<lparr> code = USER_EXISTS,
                                      message = ''Username is already taken in this room'' \<rparr>
                               else \<lparr> code = BROADCASTER_EXISTS,
                                      message = ''Room already has a broadcaster'' \<rparr>),
                            timestamp = now env 0 \<rparr>)] \<rparr>)"
proof -
  have inv: "hub_inv C s" by (rule reachable_inv [OF assms])
  then have uo: "users_ok s" and ro: "rooms_ok s" by (simp_all add: hub_inv_def)
  have a: "\<exists>room. Map_get (rooms s) (roomId u) = Some room \<and> broadcaster room = Some uid"
    if "Map_get (users s) uid = Some u" "role u = Broadcaster" for uid u
    using uo that unfolding users_ok_def by fastforce
  have b: "uid1 = uid2"
    if "Map_get (users s) uid1 = Some u1" "role u1 = Broadcaster"
       "Map_get (users s) uid2 = Some u2" "role u2 = Broadcaster" "roomId u1 = roomId u2"
    for uid1 u1 uid2 u2
    using a [OF that(1,2)] a [OF that(3,4)] that(5) by auto
  have c: "on_message w (JoinRoom \<lparr> roomIdJ = rid, usernameJ = uname, roleJ = Broadcaster \<rparr>) env s
              = s\<lparr> sent := sent s @
                     [(w, \<lparr> typeW = ERROR,
                            payload = ErrorP
                              (if \<exists>u \<in> snd ` set (users s).
                                     roomId u = rid \<and>
                                     toLowerCase env (username u) = toLowerCase env uname
                               then \<lparr> code = USER_EXISTS,
                                      message = ''Username is already taken in this room'' \<rparr>
                               else \<lparr> code = BROADCASTER_EXISTS,
                                      message = ''Room already has a broadcaster'' \<rparr>),
                            timestamp = now env 0 \<rparr>)] \<rparr>"
    if "Map_get (rooms s) rid = Some room" "broadcaster room \<noteq> None" for w rid uname env room
  proof -
    have "truthy (broadcaster room)"
      using not_truthy_broadcaster [OF uo ro that(1)] that(2) by simp
    with that(1) isUsernameTaken_iff [OF that(1), of env uname] show ?thesis
      by (simp add: join_room_def sendMessage_def errorMessage_def)
  qed
  show ?thesis using a b c by blast
qed

text \<open>
  At \<open>hubA\<close>, whose room \<open>r\<close> has Alice as broadcaster: Carol asking to broadcast gets
  \<open>BROADCASTER_EXISTS\<close>, and the registries stay as they were.
\<close>

theorem C1_one_broadcaster_witness:
  "reachable {} hubA
   \<and> Map_get (users hubA) ''u1''
       = Some \<lparr> idU = ''u1'', username = ''Alice'', role = Broadcaster, roomId = ''r'' \<rparr>
   \<and> Map_get (rooms hubA) ''r''
       = Some \<lparr> idR = ''r'', name = ''Room r'', broadcaster = Some ''u1'', viewers = [] \<rparr>
   \<and> on_message 3 (JoinRoom \<lparr> roomIdJ = ''r'', usernameJ = ''Carol'', roleJ = Broadcaster \<rparr>)
                   envU3 hubA
       = hubA\<lparr> sent := sent hubA @
                 [(3, \<lparr> typeW = ERROR,
                        payload = ErrorP \<lparr> code = BROADCASTER_EXISTS,
                                           message = ''Room already has a broadcaster'' \<rparr>,
                        timestamp = ''T0'' \<rparr>)] \<rparr>"
proof -
  note t = C1_one_broadcaster [OF reachable_hubA]
  have r: "Map_get (rooms hubA) ''r''
       = Some \<lparr> idR = ''r'', name = ''Room r'', broadcaster = Some ''u1'', viewers = [] \<rparr>"
    by (simp add: hubA_fields)
  from t r have "on_message 3 (JoinRoom \<lparr> roomIdJ = ''r'', usernameJ = ''Carol'', roleJ = Broadcaster \<rparr>)
                   envU3 hubA
       = hubA\<lparr> sent := sent hubA @
                 [(3, \<lparr> typeW = ERROR,
                        payload = ErrorP
                          (if \<exists>u \<in> snd ` set (users hubA).
                                 roomId u = ''r'' \<and>
                                 toLowerCase envU3 (username u) = toLowerCase envU3 ''Carol''
                           then \<lparr> code = USER_EXISTS,
                                  message = ''Username is already taken in this room'' \<rparr>
                           else \<lparr> code = BROADCASTER_EXISTS,
                                  message = ''Room already has a broadcaster'' \<rparr>),
                        timestamp = now envU3 0 \<rparr>)] \<rparr>"
    by simp
  then show ?thesis
    using reachable_hubA r
    by (simp add: hubA_fields envU3_def clock0_def lower_Alice lower_Carol)
qed

text \<open>
  C1 as stated fails: room \<open>r\<close> has a broadcaster, and a \<open>JOIN_ROOM\<close> as broadcaster under the
  name \<open>alice\<close> is answered with \<open>USER_EXISTS\<close>, not \<open>BROADCASTER_EXISTS\<close>.
\<close>

theorem C1_counterexample:
  "reachable {} hubA
   \<and> Map_get (rooms hubA) ''r''
       = Some \<lparr> idR = ''r'', name = ''Room r'', broadcaster = Some ''u1'', viewers = [] \<rparr>
   \<and> sent (on_message 3 (JoinRoom \<lparr> roomIdJ = ''r'', usernameJ = ''alice'', roleJ = Broadcaster \<rparr>)
                        envU3 hubA)
       = sent hubA @ [(3, \<lparr> typeW = ERROR,
                             payload = ErrorP \<lparr> code = USER_EXISTS,
                                                message = ''Username is already taken in this room'' \<rparr>,
                             timestamp = ''T0'' \<rparr>)]
   \<and> USER_EXISTS \<noteq> BROADCASTER_EXISTS"
proof -
  have l: "lowerAscii ''alice'' = ''alice''" by code_simp
  show ?thesis
    using reachable_hubA
    by (simp add: hubA_fields join_room_def isUsernameTaken_def Let_def sendMessage_def
          errorMessage_def envU3_def clock0_def lower_Alice l)
qed

text \<open>
  C2. An \<open>OFFER\<close>, \<open>ANSWER\<close> or \<open>ICE_CANDIDATE\<close> from a connection bound to identity \<open>uid\<close>: when
  the payload's receiver is a key of the connection registry, the hub sends that connection
  exactly one envelope, of type \<open>OFFER\<close> for an \<open>OFFER\<close>, \<open>ANSWER\<close> for an \<open>ANSWER\<close> and
  \<open>ICE_CANDIDATE\<close> for an \<open>ICE_CANDIDATE\<close>, whose \<open>sender\<close> is \<open>uid\<close>, whatever sender the client
  wrote, with \<open>receiver\<close>, \<open>roomId\<close> and \<open>data\<close> as received; when it is not, the hub sends nothing
  and its state stays as it was.
\<close>

theorem C2_signal_relayed:
  assumes "currentUserId s w = Some uid" and "uid \<noteq> []"
  shows "on_message w (Offer p) env s =
     (case Map_get (connections s) (receiver p) of
        None \<Rightarrow> s
      | Some receiverWs \<Rightarrow>
          s\<lparr> sent := sent s @
                [(receiverWs,
                  \<lparr> typeW = OFFER,
                    payload = RTCSignalP \<lparr> sender = uid, receiver = receiver p,
                                           roomIdS = roomIdS p, data = data p \<rparr>,
                    timestamp = now env 0 \<rparr>)] \<rparr>)
   \<and> on_message w (Answer p) env s =
     (case Map_get (connections s) (receiver p) of
        None \<Rightarrow> s
      | Some receiverWs \<Rightarrow>
          s\<lparr> sent := sent s @
                [(receiverWs,
                  \<lparr> typeW = ANSWER,
                    payload = RTCSignalP \<lparr> sender = uid, receiver = receiver p,
                                           roomIdS = roomIdS p, data = data p \<rparr>,
                    timestamp = now env 0 \<rparr>)] \<rparr>)
   \<and> on_message w (IceCandidate p) env s =
     (case Map_get (connections s) (receiver p) of
        None \<Rightarrow> s
      | Some receiverWs \<Rightarrow>
          s\<lparr> sent := sent s @
                [(receiverWs,
                  \<lparr> typeW = ICE_CANDIDATE,
                    payload = RTCSignalP \<lparr> sender = uid, receiver = receiver p,
                                           roomIdS = roomIdS p, data = data p \<rparr>,
                    timestamp = now env 0 \<rparr>)] \<rparr>)"
  using assms
  by (simp add: signal_def truthy_def sendMessage_def split: option.split)

text \<open>
  At \<open>hubAB\<close> connection 1 is Alice (\<open>u1\<close>) and \<open>u2\<close> is Bob on connection 2. Each of the three
  tags is relayed under its own type with sender \<open>u1\<close>, also when the client wrote another
  sender; a frame for an id that is no key of the registry changes nothing.
\<close>

theorem C2_signal_relayed_witness:
  "currentUserId hubAB 1 = Some ''u1'' \<and> Map_get (connections hubAB) ''u2'' = Some 2
   \<and> Map_get (connections hubAB) ''gone'' = None
   \<and> on_message 1 (Offer \<lparr> sender = ''ATTACKER'', receiver = ''u2'', roomIdS = ''r'',
                             data = ''D'' \<rparr>) envU3 hubAB
       = hubAB\<lparr> sent := sent hubAB @
                  [(2, \<lparr> typeW = OFFER,
                         payload = RTCSignalP \<lparr> sender = ''u1'', receiver = ''u2'',
                                                roomIdS = ''r'', data = ''D'' \<rparr>,
                         timestamp = ''T0'' \<rparr>)] \<rparr>
   \<and> on_message 1 (Answer \<lparr> sender = ''ATTACKER'', receiver = ''u2'', roomIdS = ''r'',
                              data = ''D'' \<rparr>) envU3 hubAB
       = hubAB\<lparr> sent := sent hubAB @
                  [(2, \<lparr> typeW = ANSWER,
                         payload = RTCSignalP \<lparr> sender = ''u1'', receiver = ''u2'',
                                                roomIdS = ''r'', data = ''D'' \<rparr>,
                         timestamp = ''T0'' \<rparr>)] \<rparr>
   \<and> on_message 1 (IceCandidate \<lparr> sender = ''ATTACKER'', receiver = ''u2'', roomIdS = ''r'',
                                    data = ''D'' \<rparr>) envU3 hubAB
       = hubAB\<lparr> sent := sent hubAB @
                  [(2, \<lparr> typeW = ICE_CANDIDATE,
                         payload = RTCSignalP \<lparr> sender = ''u1'', receiver = ''u2'',
                                                roomIdS = ''r'', data = ''D'' \<rparr>,
                         timestamp = ''T0'' \<rparr>)] \<rparr>
   \<and> on_message 1 (Answer \<lparr> sender = ''u1'', receiver = ''gone'', roomIdS = ''r'',
                              data = ''D'' \<rparr>) envU3 hubAB = hubAB"
  using C2_signal_relayed [where s = hubAB and w = 1 and uid = "''u1''" and env = envU3
          and p = "\<lparr> sender = ''ATTACKER'', receiver = ''u2'', roomIdS = ''r'', data = ''D'' \<rparr>"]
        C2_signal_relayed [where s = hubAB and w = 1 and uid = "''u1''" and env = envU3
          and p = "\<lparr> sender = ''u1'', receiver = ''gone'', roomIdS = ''r'', data = ''D'' \<rparr>"]
  by (simp add: hubAB_fields envU3_def clock0_def)

text \<open>
  C3. A \<open>JOIN_ROOM\<close> for a room id that is not in the room registry: as viewer it changes
  nothing but the log of sent envelopes, which gains one \<open>ERROR\<close> envelope of code
  \<open>ROOM_NOT_FOUND\<close> for the requester; as broadcaster it creates the room, with no viewers and
  an empty chat log, and seats the requester as its broadcaster.
\<close>

theorem C3_join_absent_room:
  assumes "Map_get (rooms s) rid = None"
  shows "on_message w (JoinRoom \<lparr> roomIdJ = rid, usernameJ = uname, roleJ = Viewer \<rparr>) env s
           = s\<lparr> sent := sent s @
                  [(w, \<lparr> typeW = ERROR,
                         payload = ErrorP \<lparr> code = ROOM_NOT_FOUND,
                                            message = ''Room does not exist'' \<rparr>,
                         timestamp = now env 0 \<rparr>)] \<rparr>
       \<and> (let s' = on_message w (JoinRoom \<lparr> roomIdJ = rid, usernameJ = uname, roleJ = Broadcaster \<rparr>) env s
          in Map_get (rooms s') rid
               = Some \<lparr> idR = rid, name = ''Room '' @ rid, broadcaster = Some (uuid env), viewers = [] \<rparr>
           \<and> Map_get (chatMessages s') rid = Some []
           \<and> Map_get (users s') (uuid env)
               = Some \<lparr> idU = uuid env, username = uname, role = Broadcaster, roomId = rid \<rparr>
           \<and> Map_get (connections s') (uuid env) = Some w
           \<and> currentUserId s' w = Some (uuid env))"
proof -
  let ?pv = "\<lparr> roomIdJ = rid, usernameJ = uname, roleJ = Viewer \<rparr>"
  let ?pb = "\<lparr> roomIdJ = rid, usernameJ = uname, roleJ = Broadcaster \<rparr>"
  have v: "on_message w (JoinRoom ?pv) env s
           = s\<lparr> sent := sent s @
                  [(w, \<lparr> typeW = ERROR,
                         payload = ErrorP \<lparr> code = ROOM_NOT_FOUND,
                                            message = ''Room does not exist'' \<rparr>,
                         timestamp = now env 0 \<rparr>)] \<rparr>"
    using assms by (simp add: join_room_def sendMessage_def errorMessage_def)
  have acc: "join_accepted env s ?pb" using assms by (simp add: join_accepted_def)
  note f = sends_only_fields [OF join_room_accepted [OF acc, where w = w]]
  have b: "Map_get (rooms (join_room w ?pb env s)) rid
               = Some \<lparr> idR = rid, name = ''Room '' @ rid, broadcaster = Some (uuid env), viewers = [] \<rparr>"
    "Map_get (chatMessages (join_room w ?pb env s)) rid = Some []"
    "Map_get (users (join_room w ?pb env s)) (uuid env)
               = Some \<lparr> idU = uuid env, username = uname, role = Broadcaster, roomId = rid \<rparr>"
    "Map_get (connections (join_room w ?pb env s)) (uuid env) = Some w"
    "currentUserId (join_room w ?pb env s) w = Some (uuid env)"
    unfolding f using assms
    by (simp_all add: seated_def Let_def update_conv' newRoom_def seatIn_def joinedUser_def)
  show ?thesis using v b by (simp add: Let_def)
qed

text \<open>At \<open>hubA\<close> there is no room \<open>q\<close>: Bob is refused as viewer and seated as broadcaster.\<close>

theorem C3_join_absent_room_witness:
  "Map_get (rooms hubA) ''q'' = None
   \<and> on_message 2 (JoinRoom \<lparr> roomIdJ = ''q'', usernameJ = ''Bob'', roleJ = Viewer \<rparr>) envU2 hubA
       = hubA\<lparr> sent := sent hubA @
                 [(2, \<lparr> typeW = ERROR,
                        payload = ErrorP \<lparr> code = ROOM_NOT_FOUND,
                                           message = ''Room does not exist'' \<rparr>,
                        timestamp = ''T0'' \<rparr>)] \<rparr>
   \<and> Map_get (rooms (on_message 2 (JoinRoom \<lparr> roomIdJ = ''q'', usernameJ = ''Bob'',
                                              roleJ = Broadcaster \<rparr>) envU2 hubA)) ''q''
       = Some \<lparr> idR = ''q'', name = ''Room q'', broadcaster = Some ''u2'', viewers = [] \<rparr>
   \<and> Map_get (chatMessages (on_message 2 (JoinRoom \<lparr> roomIdJ = ''q'', usernameJ = ''Bob'',
                                              roleJ = Broadcaster \<rparr>) envU2 hubA)) ''q'' = Some []
   \<and> Map_get (users (on_message 2 (JoinRoom \<lparr> roomIdJ = ''q'', usernameJ = ''Bob'',
                                              roleJ = Broadcaster \<rparr>) envU2 hubA)) ''u2''
       = Some \<lparr> idU = ''u2'', username = ''Bob'', role = Broadcaster, roomId = ''q'' \<rparr>
   \<and> Map_get (connections (on_message 2 (JoinRoom \<lparr> roomIdJ = ''q'', usernameJ = ''Bob'',
                                              roleJ = Broadcaster \<rparr>) envU2 hubA)) ''u2'' = Some 2"
  using C3_join_absent_room [where s = hubA and rid = "''q''" and w = 2 and uname = "''Bob''"
          and env = envU2]
  by (simp add: hubA_fields envU2_def clock0_def Let_def)

text \<open>
  C4 fails on the code, by the defect of C9. Connection 1 joins room \<open>r\<close> as broadcaster and
  is given identity \<open>u1\<close>; it sends \<open>STREAM_READY\<close>, and the stream flag of \<open>r\<close> is true. It then
  sends a second \<open>JOIN_ROOM\<close>, for room \<open>q\<close>, and is given \<open>u2\<close>. Connection 1 is still the
  connection the registry has for \<open>u1\<close>, the broadcaster of \<open>r\<close>; when it closes, the handler
  parts \<open>u2\<close> only, and the stream flag of \<open>r\<close> is still true. The flag never stands without a
  broadcaster, and it is set and removed as C4 says for the connection whose \<open>currentUserId\<close>
  is the broadcaster (\<open>stream_flag_of_current_broadcaster\<close>).
\<close>

theorem C4_stream_flag_survives_close:
  "reachable {} hubGhost
   \<and> Map_get (rooms hubGhost) ''r''
       = Some \<lparr> idR = ''r'', name = ''Room r'', broadcaster = Some ''u1'', viewers = [] \<rparr>
   \<and> Map_get (connections hubGhost) ''u1'' = Some 1
   \<and> Map_get (activeStreams hubGhost) ''r'' = Some True
   \<and> Map_get (activeStreams (on_close 1 envU3 hubGhost)) ''r'' = Some True
   \<and> Map_get (rooms (on_close 1 envU3 hubGhost)) ''r''
       = Some \<lparr> idR = ''r'', name = ''Room r'', broadcaster = Some ''u1'', viewers = [] \<rparr>"
  using reachable_hubGhost
  by (simp add: on_close_def hubGhost_fields eval_defs2)

text \<open>
  C5. A \<open>JOIN_ROOM\<close> for a room of the registry, with a username that \<open>toLowerCase\<close> makes equal
  to the username of an identity of that room, changes nothing but the log of sent
  envelopes, which gains one \<open>ERROR\<close> envelope of code \<open>USER_EXISTS\<close> for the requester: the
  registries and the connection's \<open>currentUserId\<close> stay as they were.
\<close>

theorem C5_username_taken:
  assumes "Map_get (rooms s) rid = Some room"
    and "Map_get (users s) uid = Some u" and "roomId u = rid"
    and "toLowerCase env (username u) = toLowerCase env uname"
  shows "on_message w (JoinRoom \<lparr> roomIdJ = rid, usernameJ = uname, roleJ = r \<rparr>) env s
           = s\<lparr> sent := sent s @
                  [(w, \<lparr> typeW = ERROR,
                         payload = ErrorP \<lparr> code = USER_EXISTS,
                                            message = ''Username is already taken in this room'' \<rparr>,
                         timestamp = now env 0 \<rparr>)] \<rparr>"
proof -
  from assms(2) have "(uid, u) \<in> set (users s)" by (rule map_of_SomeD)
  then have "u \<in> snd ` set (users s)" by force
  with assms(3,4) have "isUsernameTaken env s rid uname"
    unfolding isUsernameTaken_iff [OF assms(1)] by blast
  with assms(1) show ?thesis by (simp add: join_room_def sendMessage_def errorMessage_def)
qed

text \<open>At \<open>hubA\<close> Alice is in room \<open>r\<close>: a join as \<open>ALICE\<close> is refused, as viewer and as broadcaster.\<close>

theorem C5_username_taken_witness:
  "Map_get (rooms hubA) ''r''
     = Some \<lparr> idR = ''r'', name = ''Room r'', broadcaster = Some ''u1'', viewers = [] \<rparr>
   \<and> Map_get (users hubA) ''u1''
     = Some \<lparr> idU = ''u1'', username = ''Alice'', role = Broadcaster, roomId = ''r'' \<rparr>
   \<and> toLowerCase envU3 ''Alice'' = toLowerCase envU3 ''ALICE''
   \<and> on_message 3 (JoinRoom \<lparr> roomIdJ = ''r'', usernameJ = ''ALICE'', roleJ = Viewer \<rparr>) envU3 hubA
       = hubA\<lparr> sent := sent hubA @
                 [(3, \<lparr> typeW = ERROR,
                        payload = ErrorP \<lparr> code = USER_EXISTS,
                                           message = ''Username is already taken in this room'' \<rparr>,
                        timestamp = ''T0'' \<rparr>)] \<rparr>
   \<and> on_message 3 (JoinRoom \<lparr> roomIdJ = ''r'', usernameJ = ''ALICE'', roleJ = Broadcaster \<rparr>) envU3 hubA
       = hubA\<lparr> sent := sent hubA @
                 [(3, \<lparr> typeW = ERROR,
                        payload = ErrorP \<lparr> code = USER_EXISTS,
                                           message = ''Username is already taken in this room'' \<rparr>,
                        timestamp = ''T0'' \<rparr>)] \<rparr>"
  using C5_username_taken [where s = hubA and rid = "''r''" and uid = "''u1''" and w = 3
          and uname = "''ALICE''" and r = Viewer and env = envU3
          and u = "\<lparr> idU = ''u1'', username = ''Alice'', role = Broadcaster, roomId = ''r'' \<rparr>"]
        C5_username_taken [where s = hubA and rid = "''r''" and uid = "''u1''" and w = 3
          and uname = "''ALICE''" and r = Broadcaster and env = envU3
          and u = "\<lparr> idU = ''u1'', username = ''Alice'', role = Broadcaster, roomId = ''r'' \<rparr>"]
  by (simp add: hubA_fields envU3_def clock0_def lower_Alice lower_ALICE)

text \<open>
  C6. In every reachable state a room of the registry has a broadcaster or a viewer, so a room
  with neither is absent; a room id absent from the room registry has no chat log either, and
  the chat-history read for it returns the empty array, whatever the \<open>limit\<close> parameter.
\<close>

theorem C6_no_empty_room:
  assumes "reachable C s"
  shows "(\<forall>rid room. Map_get (rooms s) rid = Some room \<longrightarrow>
            truthy (broadcaster room) \<or> viewers room \<noteq> [])
       \<and> (\<forall>rid parsed. Map_get (rooms s) rid = None \<longrightarrow>
            Map_get (chatMessages s) rid = None \<and> api_room_messages s rid parsed = [])"
proof -
  have inv: "hub_inv C s" by (rule reachable_inv [OF assms])
  then have uo: "users_ok s" and ro: "rooms_ok s" and co: "chats_ok s"
    by (simp_all add: hub_inv_def)
  have a: "truthy (broadcaster room) \<or> viewers room \<noteq> []"
    if "Map_get (rooms s) rid = Some room" for rid room
  proof -
    from ro that have "broadcaster room \<noteq> None \<or> viewers room \<noteq> []"
      unfolding rooms_ok_def by blast
    with not_truthy_broadcaster [OF uo ro that] show ?thesis by simp
  qed
  have b: "Map_get (chatMessages s) rid = None \<and> api_room_messages s rid parsed = []"
    if "Map_get (rooms s) rid = None" for rid parsed
  proof -
    from co that have "Map_get (chatMessages s) rid = None" unfolding chats_ok_def by blast
    then show ?thesis
      by (simp add: api_room_messages_def getRoomMessages_def slice_from_def Let_def)
  qed
  show ?thesis using a b by blast
qed

theorem C6_no_empty_room_witness:
  "reachable {1} hubLeft
   \<and> Map_get (rooms hubLeft) ''r''
       = Some \<lparr> idR = ''r'', name = ''Room r'', broadcaster = None, viewers = [''u2''] \<rparr>
   \<and> reachable {2, 1} hubEmpty
   \<and> Map_get (rooms hubEmpty) ''r'' = None
   \<and> Map_get (chatMessages hubEmpty) ''r'' = None
   \<and> api_room_messages hubEmpty ''r'' None = []"
proof -
  note t = C6_no_empty_room [OF reachable_hubEmpty]
  have r: "Map_get (rooms hubEmpty) ''r'' = None" by (simp add: hubEmpty_fields)
  from t r have "Map_get (chatMessages hubEmpty) ''r'' = None \<and> api_room_messages hubEmpty ''r'' None = []"
    by blast
  with reachable_hubLeft reachable_hubEmpty r show ?thesis by (simp add: hubLeft_fields)
qed

text \<open>
  C7. A \<open>CHAT_MESSAGE\<close> from an open connection that holds an identity, in a reachable state.
  The hub mints the message (its own id and timestamp, the sender's id, username and room,
  the client's content, kind and recipient) and wraps it in a \<open>CHAT_MESSAGE_RECEIVED\<close>
  envelope. Private, with a \<open>recipientId\<close> that is a key of the connection registry: the hub
  sends that envelope once to the recipient's connection and once to the sender's, and
  nothing else. Public: the room of the sender is in the registry, its members are distinct
  and each has a connection, the sender is one of them, and the hub sends that envelope once
  per member, to that member's connection.
\<close>

theorem C7_chat_delivery:
  assumes "reachable C s" and "w \<notin> C" and "currentUserId s w = Some uid"
  shows "\<exists>user. Map_get (users s) uid = Some user \<and>
     (let received =
            \<lparr> typeW = CHAT_MESSAGE_RECEIVED,
              payload = ChatMessageReceivedP
                \<lparr> idC = uuid env, senderId = uid, senderUsername = username user,
                  roomIdC = roomId user, content = content m, typeC = typeC m,
                  recipientId = recipientId m, timestampC = now env 1 \<rparr>,
              timestamp = now env 1 \<rparr>
      in (typeC m = Private \<longrightarrow>
            (\<forall>rcp recipientWs.
               recipientId m = Some rcp \<and> Map_get (connections s) rcp = Some recipientWs \<longrightarrow>
               sent (on_message w (ChatMessageIn m) env s)
                 = sent s @ [(recipientWs, received), (w, received)])) \<and>
         (typeC m = Public \<longrightarrow>
            (\<exists>room. Map_get (rooms s) (roomId user) = Some room \<and>
               uid \<in> set (memberIds room) \<and> distinct (memberIds room) \<and>
               Map_get (connections s) uid = Some w \<and>
               (\<forall>member \<in> set (memberIds room). Map_get (connections s) member \<noteq> None) \<and>
               sent (on_message w (ChatMessageIn m) env s)
                 = sent s @ map (\<lambda>member. (the (Map_get (connections s) member), received))
                                (memberIds room))))"
proof -
  have inv: "hub_inv C s" by (rule reachable_inv [OF assms(1)])
  then have uo: "users_ok s" and so: "sessions_ok C s" and co: "connections_ok s"
    by (simp_all add: hub_inv_def)
  from so assms(2,3) obtain user where u: "Map_get (users s) uid = Some user"
    and c: "Map_get (connections s) uid = Some w"
    unfolding sessions_ok_def by blast
  from uo u obtain room where ne: "uid \<noteq> []" and me: "idU user = uid"
    and r: "Map_get (rooms s) (roomId user) = Some room"
    and seat: "if role user = Broadcaster then broadcaster room = Some uid
               else uid \<in> set (viewers room)"
    unfolding users_ok_def by blast
  define received where "received =
            \<lparr> typeW = CHAT_MESSAGE_RECEIVED,
              payload = ChatMessageReceivedP
                \<lparr> idC = uuid env, senderId = uid, senderUsername = username user,
                  roomIdC = roomId user, content = content m, typeC = typeC m,
                  recipientId = recipientId m, timestampC = now env 1 \<rparr>,
              timestamp = now env 1 \<rparr>"
  have rc: "chatReceived (mintMessage user m env) = received"
    by (simp add: received_def chatReceived_def mintMessage_def me)
  have priv: "sent (on_message w (ChatMessageIn m) env s)
             = sent s @ [(recipientWs, received), (w, received)]"
    if "typeC m = Private" "recipientId m = Some rcp" "Map_get (connections s) rcp = Some recipientWs"
    for rcp recipientWs
  proof -
    from co that(3) obtain ru where "Map_get (users s) rcp = Some ru"
      unfolding connections_ok_def by fastforce
    with uo have "rcp \<noteq> []" unfolding users_ok_def by blast
    from chat_private_sent [OF assms(3) ne u that(1,2) this, of env] that(3)
    show ?thesis by (simp add: rc)
  qed
  have mem: "uid \<in> set (memberIds room)"
    using seat ne by (auto simp: memberIds_def truthy_def split: if_splits)
  note mo = members_ok [OF inv r]
  have pub: "sent (on_message w (ChatMessageIn m) env s)
             = sent s @ map (\<lambda>member. (the (Map_get (connections s) member), received))
                            (memberIds room)"
    if "typeC m = Public"
    using chat_public_sent [OF assms(3) ne u that, of env] fanout_all [OF r mo(2)]
    by (simp add: rc)
  have "(typeC m = Private \<longrightarrow>
            (\<forall>rcp recipientWs.
               recipientId m = Some rcp \<and> Map_get (connections s) rcp = Some recipientWs \<longrightarrow>
               sent (on_message w (ChatMessageIn m) env s)
                 = sent s @ [(recipientWs, received), (w, received)])) \<and>
         (typeC m = Public \<longrightarrow>
            (\<exists>room. Map_get (rooms s) (roomId user) = Some room \<and>
               uid \<in> set (memberIds room) \<and> distinct (memberIds room) \<and>
               Map_get (connections s) uid = Some w \<and>
               (\<forall>member \<in> set (memberIds room). Map_get (connections s) member \<noteq> None) \<and>
               sent (on_message w (ChatMessageIn m) env s)
                 = sent s @ map (\<lambda>member. (the (Map_get (connections s) member), received))
                                (memberIds room)))"
    using priv pub r mem mo c by blast
  then show ?thesis
    using u unfolding received_def by (simp add: Let_def)
qed

text \<open>
  At \<open>hubAB\<close> Alice (\<open>u1\<close>, connection 1) and Bob (\<open>u2\<close>, connection 2) are the members of room
  \<open>r\<close>. Alice's private message to \<open>u2\<close> goes to connection 2 and back to connection 1; her
  public message goes to connection 1 and to connection 2, once each.
\<close>

theorem C7_chat_delivery_witness:
  "reachable {} hubAB \<and> currentUserId hubAB 1 = Some ''u1''
   \<and> Map_get (connections hubAB) ''u2'' = Some 2
   \<and> sent (on_message 1 (ChatMessageIn (chatTo Private (Some ''u2''))) envU3 hubAB)
       = sent hubAB @
         [(2, \<lparr> typeW = CHAT_MESSAGE_RECEIVED,
                payload = ChatMessageReceivedP
                  \<lparr> idC = ''u3'', senderId = ''u1'', senderUsername = ''Alice'',
                    roomIdC = ''r'', content = ''hi'', typeC = Private,
                    recipientId = Some ''u2'', timestampC = ''T1'' \<rparr>,
                timestamp = ''T1'' \<rparr>),
          (1, \<lparr> typeW = CHAT_MESSAGE_RECEIVED,
                payload = ChatMessageReceivedP
                  \<lparr> idC = ''u3'', senderId = ''u1'', senderUsername = ''Alice'',
                    roomIdC = ''r'', content = ''hi'', typeC = Private,
                    recipientId = Some ''u2'', timestampC = ''T1'' \<rparr>,
                timestamp = ''T1'' \<rparr>)]
   \<and> sent (on_message 1 (ChatMessageIn (chatTo Public None)) envU3 hubAB)
       = sent hubAB @
         [(1, \<lparr> typeW = CHAT_MESSAGE_RECEIVED,
                payload = ChatMessageReceivedP
                  \<lparr> idC = ''u3'', senderId = ''u1'', senderUsername = ''Alice'',
                    roomIdC = ''r'', content = ''hi'', typeC = Public,
                    recipientId = None, timestampC = ''T1'' \<rparr>,
                timestamp = ''T1'' \<rparr>),
          (2, \<lparr> typeW = CHAT_MESSAGE_RECEIVED,
                payload = ChatMessageReceivedP
                  \<lparr> idC = ''u3'', senderId = ''u1'', senderUsername = ''Alice'',
                    roomIdC = ''r'', content = ''hi'', typeC = Public,
                    recipientId = None, timestampC = ''T1'' \<rparr>,
                timestamp = ''T1'' \<rparr>)]"
proof -
  have c: "currentUserId hubAB 1 = Some ''u1''" and w: "(1::nat) \<notin> {}"
    by (simp_all add: hubAB_fields)
  note p = C7_chat_delivery [OF reachable_hubAB w c, where m = "chatTo Private (Some ''u2'')"
               and env = envU3]
  note q = C7_chat_delivery [OF reachable_hubAB w c, where m = "chatTo Public None"
               and env = envU3]
  have a: "sent (on_message 1 (ChatMessageIn (chatTo Private (Some ''u2''))) envU3 hubAB)
       = sent hubAB @
         [(2, \<lparr> typeW = CHAT_MESSAGE_RECEIVED,
                payload = ChatMessageReceivedP
                  \<lparr> idC = ''u3'', senderId = ''u1'', senderUsername = ''Alice'',
                    roomIdC = ''r'', content = ''hi'', typeC = Private,
                    recipientId = Some ''u2'', timestampC = ''T1'' \<rparr>,
                timestamp = ''T1'' \<rparr>),
          (1, \<lparr> typeW = CHAT_MESSAGE_RECEIVED,
                payload = ChatMessageReceivedP
                  \<lparr> idC = ''u3'', senderId = ''u1'', senderUsername = ''Alice'',
                    roomIdC = ''r'', content = ''hi'', typeC = Private,
                    recipientId = Some ''u2'', timestampC = ''T1'' \<rparr>,
                timestamp = ''T1'' \<rparr>)]"
    using p by (simp add: hubAB_fields chatTo_def Let_def envU3_def clock0_def)
  have b: "sent (on_message 1 (ChatMessageIn (chatTo Public None)) envU3 hubAB)
       = sent hubAB @
         [(1, \<lparr> typeW = CHAT_MESSAGE_RECEIVED,
                payload = ChatMessageReceivedP
                  \<lparr> idC = ''u3'', senderId = ''u1'', senderUsername = ''Alice'',
                    roomIdC = ''r'', content = ''hi'', typeC = Public,
                    recipientId = None, timestampC = ''T1'' \<rparr>,
                timestamp = ''T1'' \<rparr>),
          (2, \<lparr> typeW = CHAT_MESSAGE_RECEIVED,
                payload = ChatMessageReceivedP
                  \<lparr> idC = ''u3'', senderId = ''u1'', senderUsername = ''Alice'',
                    roomIdC = ''r'', content = ''hi'', typeC = Public,
                    recipientId = None, timestampC = ''T1'' \<rparr>,
                timestamp = ''T1'' \<rparr>)]"
    using q by (simp add: hubAB_fields chatTo_def Let_def envU3_def clock0_def memberIds_def
                  truthy_def)
  show ?thesis
    using reachable_hubAB c a b by (simp add: hubAB_fields)
qed

text \<open>
  C8, as the code has it. A viewer joins, from a connection other than the broadcaster's, a
  room of the registry that holds only its broadcaster, with no active stream. The hub sends,
  in this order, \<open>ROOM_JOINED\<close> to the joiner, \<open>USER_JOINED\<close> (payload: the new user) and
  \<open>ROOM_STATE\<close> to the broadcaster's connection, and \<open>ROOM_STATE\<close> to the joiner, and nothing
  else. So the joiner receives \<open>ROOM_JOINED\<close> then \<open>ROOM_STATE\<close> and no \<open>USER_JOINED\<close>
  (\<open>broadcastToRoom\<close> is called with the new id as \<open>excludeUser\<close>), the broadcaster receives
  \<open>USER_JOINED\<close> then \<open>ROOM_STATE\<close>, and no \<open>BROADCASTER_READY\<close> is sent.
\<close>

theorem C8_viewer_join_sequence:
  assumes "reachable C s" and "fresh env s"
    and "Map_get (rooms s) rid = Some room" and "broadcaster room = Some b"
    and "viewers room = []" and "Map_get (activeStreams s) rid \<noteq> Some True"
    and "\<forall>u \<in> snd ` set (users s).
           roomId u = rid \<longrightarrow> toLowerCase env (username u) \<noteq> toLowerCase env uname"
    and "Map_get (connections s) b \<noteq> Some w"
  shows "\<exists>wb ub. Map_get (connections s) b = Some wb \<and> wb \<noteq> w \<and>
                  Map_get (users s) b = Some ub \<and>
    (let user = \<lparr> idU = uuid env, username = uname, role = Viewer, roomId = rid \<rparr>;
         snapshot = Some \<lparr> idR = rid, name = name room, broadcaster = Some b,
                            viewers = [uuid env], usersR = [ub, user] \<rparr>
     in sent (on_message w (JoinRoom \<lparr> roomIdJ = rid, usernameJ = uname, roleJ = Viewer \<rparr>) env s)
          = sent s @
            [(w, \<lparr> typeW = ROOM_JOINED,
                   payload = RoomJoinedP snapshot user (getRoomMessages s rid 50),
                   timestamp = now env 0 \<rparr>),
             (wb, \<lparr> typeW = USER_JOINED, payload = UserJoinedP user, timestamp = now env 0 \<rparr>),
             (wb, \<lparr> typeW = ROOM_STATE, payload = RoomStateP snapshot, timestamp = now env 0 \<rparr>),
             (w, \<lparr> typeW = ROOM_STATE, payload = RoomStateP snapshot, timestamp = now env 0 \<rparr>)])"
proof -
  have inv: "hub_inv C s" by (rule reachable_inv [OF assms(1)])
  then have uo: "users_ok s" and ro: "rooms_ok s" by (simp_all add: hub_inv_def)
  from ro assms(3,4) obtain ub where ub: "Map_get (users s) b = Some ub" and idr: "idR room = rid"
    unfolding rooms_ok_def by blast
  from uo ub obtain wb where ne: "b \<noteq> []" and wb: "Map_get (connections s) b = Some wb"
    unfolding users_ok_def by blast
  from wb assms(8) have diff: "wb \<noteq> w" by auto
  from assms(2) ub have fr: "uuid env \<noteq> []" "uuid env \<noteq> b"
    using fresh_None [OF assms(2)] by (auto simp: fresh_def)
  have free: "\<not> isUsernameTaken env s rid uname"
    unfolding isUsernameTaken_iff [OF assms(3)] using assms(7) by blast
  note js = join_viewer_sent [OF assms(3,4) ne assms(5) wb ub assms(6) free fr, of w]
  show ?thesis
    using wb ub js idr diff by (simp add: Let_def)
qed

text \<open>
  At \<open>hubA\<close> room \<open>r\<close> holds Alice alone, on connection 1, and Bob joins from connection 2:
  connection 2 is sent \<open>ROOM_JOINED\<close> and \<open>ROOM_STATE\<close>, connection 1 \<open>USER_JOINED\<close> and
  \<open>ROOM_STATE\<close>.
\<close>

theorem C8_viewer_join_sequence_witness:
  "reachable {} hubA \<and> fresh envU2 hubA
   \<and> Map_get (rooms hubA) ''r''
       = Some \<lparr> idR = ''r'', name = ''Room r'', broadcaster = Some ''u1'', viewers = [] \<rparr>
   \<and> Map_get (activeStreams hubA) ''r'' = None
   \<and> Map_get (connections hubA) ''u1'' = Some 1
   \<and> users hubA
       = [(''u1'', \<lparr> idU = ''u1'', username = ''Alice'', role = Broadcaster, roomId = ''r'' \<rparr>)]
   \<and> toLowerCase envU2 ''Alice'' \<noteq> toLowerCase envU2 ''Bob''
   \<and> map (\<lambda>e. (fst e, typeW (snd e)))
         (sent (on_message 2 (JoinRoom \<lparr> roomIdJ = ''r'', usernameJ = ''Bob'', roleJ = Viewer \<rparr>)
                            envU2 hubA))
       = map (\<lambda>e. (fst e, typeW (snd e))) (sent hubA)
         @ [(2, ROOM_JOINED), (1, USER_JOINED), (1, ROOM_STATE), (2, ROOM_STATE)]"
proof -
  have f: "fresh envU2 hubA" by (simp add: fresh_def envU2_def hubA_fields)
  have r: "Map_get (rooms hubA) ''r''
       = Some \<lparr> idR = ''r'', name = ''Room r'', broadcaster = Some ''u1'', viewers = [] \<rparr>"
    and a: "Map_get (activeStreams hubA) ''r'' \<noteq> Some True"
    and u: "\<forall>u \<in> snd ` set (users hubA).
              roomId u = ''r'' \<longrightarrow> toLowerCase envU2 (username u) \<noteq> toLowerCase envU2 ''Bob''"
    and d: "Map_get (connections hubA) ''u1'' \<noteq> Some 2"
    by (simp_all add: hubA_fields envU2_def lower_Alice lower_Bob)
  from C8_viewer_join_sequence [OF reachable_hubA f r _ _ a u d]
  have "map (\<lambda>e. (fst e, typeW (snd e)))
         (sent (on_message 2 (JoinRoom \<lparr> roomIdJ = ''r'', usernameJ = ''Bob'', roleJ = Viewer \<rparr>)
                            envU2 hubA))
       = map (\<lambda>e. (fst e, typeW (snd e))) (sent hubA)
         @ [(2, ROOM_JOINED), (1, USER_JOINED), (1, ROOM_STATE), (2, ROOM_STATE)]"
    by (auto simp: Let_def hubA_fields)
  with reachable_hubA f r show ?thesis
    by (simp add: hubA_fields envU2_def lower_Alice lower_Bob)
qed

text \<open>
  C8 as stated fails: when Bob joins Alice's room from connection 2, connection 2 is sent
  \<open>ROOM_JOINED\<close> and \<open>ROOM_STATE\<close> and no \<open>USER_JOINED\<close>.
\<close>

theorem C8_counterexample:
  "reachable {} hubA
   \<and> rooms hubA = [(''r'', \<lparr> idR = ''r'', name = ''Room r'', broadcaster = Some ''u1'', viewers = [] \<rparr>)]
   \<and> activeStreams hubA = []
   \<and> sentTags (on_message 2 (JoinRoom \<lparr> roomIdJ = ''r'', usernameJ = ''Bob'', roleJ = Viewer \<rparr>)
                            envU2 hubA)
       = sentTags hubA @ [(2, ROOM_JOINED), (1, USER_JOINED), (1, ROOM_STATE), (2, ROOM_STATE)]"
  using reachable_hubA
  by (simp add: sentTags_def hubA_fields eval_defs lower_Alice lower_Bob)

text \<open>
  C9 fails on the code. Connection 1 joins room \<open>r\<close> and is given identity \<open>u1\<close>; it then sends
  a second \<open>JOIN_ROOM\<close>, for room \<open>q\<close>, and is given \<open>u2\<close>. The connection registry now maps both
  ids to connection 1. The \<open>close\<close> handler parts \<open>currentUserId\<close> only, which is \<open>u2\<close>: after
  connection 1 closes, \<open>u1\<close> is still registered to it and still the broadcaster of room \<open>r\<close>.
  In the runs where no connection is seated twice the registry maps no two ids to one
  connection (\<open>one_identity_per_session_without_rejoin\<close>).
\<close>

theorem C9_second_join_keeps_first_identity:
  "reachable {} hubRejoin
   \<and> Map_get (connections hubRejoin) ''u1'' = Some 1
   \<and> Map_get (connections hubRejoin) ''u2'' = Some 1
   \<and> currentUserId hubRejoin 1 = Some ''u2''
   \<and> Map_get (connections (on_close 1 envU3 hubRejoin)) ''u1'' = Some 1
   \<and> Map_get (rooms (on_close 1 envU3 hubRejoin)) ''r''
       = Some \<lparr> idR = ''r'', name = ''Room r'', broadcaster = Some ''u1'', viewers = [] \<rparr>"
  using reachable_hubRejoin
  by (simp add: on_close_def hubRejoin_fields eval_defs2)



end
